theory Spec2Isabelle
  imports Complex_Main "HOL-Library.Multiset"
begin

section \<open>The stock query engine of \<^verbatim>\<open>stock_data_query.py\<close>\<close>

text \<open>
  The class \<^verbatim>\<open>StockQuery\<close> sends fixed, parameterised SQL statements to a MySQL
  database and wraps them in argument checks and page arithmetic. The embedding below
  keeps the Python control flow and makes its effects explicit:
  \<^item> Python integers are \<open>int\<close>, Python \<^verbatim>\<open>str\<close> is \<open>string\<close> (only emptiness and
    equality of strings are used);
  \<^item> every \<^verbatim>\<open>raise\<close> is a value of the type \<open>error\<close>, and a method returns
    \<open>error + 'a\<close>;
  \<^item> the database is external and may change between two statements of one call, so a
    method reads from an \<open>engine\<close>: the snapshot that the k-th statement issued on the
    connection pool sees, or \<open>None\<close> when that statement fails with
    \<^verbatim>\<open>SQLAlchemyError\<close>;
  \<^item> every method threads the list of statements issued so far, so that the storage
    accesses of a call, and the parameters bound in them, can be observed.
\<close>

subsection \<open>Tables\<close>

text \<open>
  Only the columns that the statements name are modelled. Dates are day numbers counted
  from Thursday 1 January 1970.
\<close>

record stock =
  stock_id :: int
  ts_code :: string
  symbol :: string
  name :: string
  area :: string
  industry :: string
  list_date :: string

record daily_bar =
  daily_ts_code :: string
  trade_date :: int

record indicator =
  indicator_id :: int
  indicator_ts_code :: string

record prediction =
  prediction_id :: int
  prediction_ts_code :: string
  predict_date :: int

record tables =
  stocks_table :: "stock list"
  stock_daily_data_table :: "daily_bar list"
  stock_technical_indicators_clean_table :: "indicator list"
  ai_predictions_table :: "prediction list"
  ai_predictions_top3_table :: "prediction list"
  curdate_value :: int

text \<open>
  MySQL counts and addresses rows with 64-bit unsigned integers, so a table holds fewer
  than \<open>2 ^ 64\<close> rows. A \<open>database\<close> is a snapshot of the five tables within that
  size, together with the value of \<^verbatim>\<open>CURDATE()\<close>.
\<close>

definition storable :: "tables \<Rightarrow> bool" where
  "storable t \<longleftrightarrow>
     length (stocks_table t) < 2 ^ 64
     \<and> length (stock_daily_data_table t) < 2 ^ 64
     \<and> length (stock_technical_indicators_clean_table t) < 2 ^ 64
     \<and> length (ai_predictions_table t) < 2 ^ 64
     \<and> length (ai_predictions_top3_table t) < 2 ^ 64"

definition no_rows :: tables where
  "no_rows =
     \<lparr>stocks_table = [], stock_daily_data_table = [],
      stock_technical_indicators_clean_table = [], ai_predictions_table = [],
      ai_predictions_top3_table = [], curdate_value = 0\<rparr>"

typedef database = "{t. storable t}"
proof
  show "no_rows \<in> {t. storable t}"
    by (simp add: storable_def no_rows_def)
qed

setup_lifting type_definition_database

lift_definition stocks :: "database \<Rightarrow> stock list"
  is stocks_table .

lift_definition stock_daily_data :: "database \<Rightarrow> daily_bar list"
  is stock_daily_data_table .



lift_definition ai_predictions_top3 :: "database \<Rightarrow> prediction list"
  is ai_predictions_top3_table .

lift_definition curdate :: "database \<Rightarrow> int"
  is curdate_value .

text \<open>The database with the given tables; tables beyond the size limit give the empty one.\<close>

lift_definition database_of :: "tables \<Rightarrow> database"
  is "\<lambda>t. if storable t then t else no_rows"
  by (simp add: storable_def no_rows_def)

type_synonym engine = "nat \<Rightarrow> database option"

text \<open>A database that answers every statement and never changes.\<close>

definition steady :: "database \<Rightarrow> engine" where
  "steady db = (\<lambda>k. Some db)"

subsection \<open>Errors\<close>

text \<open>
  The source raises \<^verbatim>\<open>ValueError\<close> with one of eight messages and \<^verbatim>\<open>Exception\<close>
  for a failed statement. The constructors stand for the messages:
  \<^item> \<open>InvalidArgument\<close>: a page number below 1 or an empty text parameter;
  \<^item> \<open>PageOutOfRange n total_pages\<close>: "page n exceeds the maximum page number
    total_pages" (lines 22, 116 and 166);
  \<^item> \<open>PageBeyondData n actual_total\<close>: "page n is outside the data, there are only
    actual_total records" (line 42);
  \<^item> \<open>StorageFailure\<close>: the \<^verbatim>\<open>Exception\<close> that replaces a \<^verbatim>\<open>SQLAlchemyError\<close>.
\<close>

datatype invalid =
  PageBelowOne | EmptySymbol | EmptyName | EmptyArea | EmptyIndustry | EmptyTsCode

datatype error =
    InvalidArgument invalid
  | PageOutOfRange int int
  | PageBeyondData int int
  | StorageFailure

subsection \<open>Statements\<close>

datatype stock_filter =
  NoFilter | WhereSymbol string | WhereName string | WhereArea string | WhereIndustry string

text \<open>
  The statements of the source. \<open>SelectStocks f limit offset\<close> is the page query
  \<^verbatim>\<open>SELECT ... FROM stocks [WHERE col = :v] ORDER BY id ASC LIMIT :limit OFFSET :offset\<close>.
\<close>

datatype statement =
    CountStocks stock_filter
  | SelectStocks stock_filter int int
  | SelectOneStock stock_filter
  | SelectRecentDaily string
  | SelectLatestIndicator string
  | SelectTodayPredictions string
  | SelectTop3

type_synonym 'a io = "statement list \<Rightarrow> (error + 'a) \<times> statement list"

definition ret :: "'a \<Rightarrow> 'a io" where
  "ret x tr = (Inr x, tr)"

definition raise :: "error \<Rightarrow> 'a io" where
  "raise e tr = (Inl e, tr)"

text \<open>Sequencing: an exception of the first part skips the second.\<close>

definition and_then :: "'a io \<Rightarrow> ('a \<Rightarrow> 'b io) \<Rightarrow> 'b io" where
  "and_then m f tr =
     (case m tr of
        (Inl e, tr') \<Rightarrow> (Inl e, tr')
      | (Inr x, tr') \<Rightarrow> f x tr')"

text \<open>
  One round trip: the statement is recorded, and it is answered from the snapshot that
  the engine holds for it.
\<close>

definition execute :: "engine \<Rightarrow> statement \<Rightarrow> (database \<Rightarrow> error + 'a) \<Rightarrow> 'a io" where
  "execute eng stmt answer tr =
     (case eng (length tr) of
        None \<Rightarrow> (Inl StorageFailure, tr @ [stmt])
      | Some db \<Rightarrow> (answer db, tr @ [stmt]))"

fun matches :: "stock_filter \<Rightarrow> stock \<Rightarrow> bool" where
  "matches NoFilter r = True"
| "matches (WhereSymbol v) r = (symbol r = v)"
| "matches (WhereName v) r = (name r = v)"
| "matches (WhereArea v) r = (area r = v)"
| "matches (WhereIndustry v) r = (industry r = v)"

text \<open>\<^verbatim>\<open>SELECT COUNT(*) as total FROM stocks [WHERE col = :v]\<close>\<close>

definition count_stocks :: "stock_filter \<Rightarrow> database \<Rightarrow> error + int" where
  "count_stocks f db = Inr (int (length (filter (matches f) (stocks db))))"

text \<open>
  The page query. The driver writes \<^verbatim>\<open>:limit\<close> and \<^verbatim>\<open>:offset\<close> into the
  statement as integer literals. MySQL accepts for \<^verbatim>\<open>LIMIT\<close> and \<^verbatim>\<open>OFFSET\<close>
  only literals from 0 to \<open>2 ^ 64 - 1\<close>; any other value is a syntax error, which
  reaches the caller as a failed statement.
\<close>

definition select_stocks :: "stock_filter \<Rightarrow> int \<Rightarrow> int \<Rightarrow> database \<Rightarrow> error + stock list" where
  "select_stocks f limit offset db =
     (if limit < 0 \<or> offset < 0 \<or> 2 ^ 64 - 1 < limit \<or> 2 ^ 64 - 1 < offset
      then Inl StorageFailure
      else Inr (take (nat limit) (drop (nat offset)
                  (sort_key stock_id (filter (matches f) (stocks db))))))"

text \<open>\<^verbatim>\<open>SELECT ... FROM stocks WHERE col = :v LIMIT 1\<close>, read with \<^verbatim>\<open>fetchone\<close>.\<close>

definition select_one_stock :: "stock_filter \<Rightarrow> database \<Rightarrow> error + stock option" where
  "select_one_stock f db = Inr (find (matches f) (stocks db))"

text \<open>\<^verbatim>\<open>WEEKDAY\<close> of MySQL: 0 is Monday, 6 is Sunday.\<close>

definition weekday :: "int \<Rightarrow> int" where
  "weekday d = (d + 3) mod 7"

text \<open>
  \<^verbatim>\<open>SELECT * FROM stock_daily_data WHERE ts_code = :ts_code
    AND trade_date >= DATE_SUB(CURDATE(), INTERVAL 14 DAY) AND WEEKDAY(trade_date) < 5
    ORDER BY trade_date DESC LIMIT 7\<close>
\<close>

definition recent_bar :: "string \<Rightarrow> int \<Rightarrow> daily_bar \<Rightarrow> bool" where
  "recent_bar code today r \<longleftrightarrow>
     daily_ts_code r = code \<and> trade_date r \<ge> today - 14 \<and> weekday (trade_date r) < 5"

definition select_recent_daily :: "string \<Rightarrow> database \<Rightarrow> error + daily_bar list" where
  "select_recent_daily code db =
     Inr (take 7 (rev (sort_key trade_date
            (filter (recent_bar code (curdate db)) (stock_daily_data db)))))"



text \<open>\<^verbatim>\<open>SELECT ... FROM ai_predictions_top3 ORDER BY id ASC\<close>\<close>

definition select_top3 :: "database \<Rightarrow> error + prediction list" where
  "select_top3 db = Inr (sort_key prediction_id (ai_predictions_top3 db))"

subsection \<open>The methods of \<^verbatim>\<open>StockQuery\<close>\<close>

definition get_total_records :: "engine \<Rightarrow> int io" where
  "get_total_records eng = execute eng (CountStocks NoFilter) (count_stocks NoFilter)"

definition get_total_pages :: "engine \<Rightarrow> int io" where
  "get_total_pages eng =
     and_then (get_total_records eng) (\<lambda>total_count.
       ret (if total_count > 0 then (total_count + 20 - 1) div 20 else 0))"

definition get_stocks_by_page_number :: "engine \<Rightarrow> int \<Rightarrow> bool \<Rightarrow> stock list io" where
  "get_stocks_by_page_number eng n check_total =
     (if n < 1 then raise (InvalidArgument PageBelowOne)
      else
        and_then
          (if check_total then
             and_then (get_total_pages eng) (\<lambda>total_pages.
               if n > total_pages then raise (PageOutOfRange n total_pages) else ret ())
           else ret ())
          (\<lambda>_.
            let offset = 20 * (n - 1); limit = 20 in
            and_then (execute eng (SelectStocks NoFilter limit offset)
                        (select_stocks NoFilter limit offset)) (\<lambda>rows.
              and_then
                (if rows = [] \<and> n > 1 \<and> check_total then
                   and_then (get_total_records eng) (\<lambda>actual_total.
                     if actual_total \<le> offset then raise (PageBeyondData n actual_total)
                     else ret ())
                 else ret ())
                (\<lambda>_. ret rows))))"

definition get_stock_by_symbol :: "engine \<Rightarrow> string \<Rightarrow> stock option io" where
  "get_stock_by_symbol eng sy =
     (if sy = [] then raise (InvalidArgument EmptySymbol)
      else execute eng (SelectOneStock (WhereSymbol sy)) (select_one_stock (WhereSymbol sy)))"

definition get_stock_by_name :: "engine \<Rightarrow> string \<Rightarrow> stock option io" where
  "get_stock_by_name eng nm =
     (if nm = [] then raise (InvalidArgument EmptyName)
      else execute eng (SelectOneStock (WhereName nm)) (select_one_stock (WhereName nm)))"

definition get_area_total_records :: "engine \<Rightarrow> string \<Rightarrow> int io" where
  "get_area_total_records eng ar =
     execute eng (CountStocks (WhereArea ar)) (count_stocks (WhereArea ar))"

definition get_area_total_pages :: "engine \<Rightarrow> string \<Rightarrow> int io" where
  "get_area_total_pages eng ar =
     and_then (get_area_total_records eng ar) (\<lambda>total.
       ret (if total > 0 then (total + 20 - 1) div 20 else 0))"

definition get_stocks_by_page_and_area :: "engine \<Rightarrow> int \<Rightarrow> string \<Rightarrow> stock list io" where
  "get_stocks_by_page_and_area eng n ar =
     (if n < 1 then raise (InvalidArgument PageBelowOne)
      else if ar = [] then raise (InvalidArgument EmptyArea)
      else
        and_then (get_area_total_records eng ar) (\<lambda>area_total.
          if area_total = 0 then ret []
          else
            and_then (get_area_total_pages eng ar) (\<lambda>total_pages.
              if n > total_pages then raise (PageOutOfRange n total_pages)
              else
                let offset = 20 * (n - 1);
                    limit = (if n < total_pages then 20 else area_total - offset)
                in execute eng (SelectStocks (WhereArea ar) limit offset)
                     (select_stocks (WhereArea ar) limit offset))))"

definition get_industry_total_records :: "engine \<Rightarrow> string \<Rightarrow> int io" where
  "get_industry_total_records eng ind =
     execute eng (CountStocks (WhereIndustry ind)) (count_stocks (WhereIndustry ind))"

definition get_industry_total_pages :: "engine \<Rightarrow> string \<Rightarrow> int io" where
  "get_industry_total_pages eng ind =
     and_then (get_industry_total_records eng ind) (\<lambda>total.
       ret (if total > 0 then (total + 20 - 1) div 20 else 0))"

definition get_stocks_by_page_and_industry :: "engine \<Rightarrow> int \<Rightarrow> string \<Rightarrow> stock list io" where
  "get_stocks_by_page_and_industry eng n ind =
     (if n < 1 then raise (InvalidArgument PageBelowOne)
      else if ind = [] then raise (InvalidArgument EmptyIndustry)
      else
        and_then (get_industry_total_records eng ind) (\<lambda>total.
          if total = 0 then ret []
          else
            and_then (get_industry_total_pages eng ind) (\<lambda>total_pages.
              if n > total_pages then raise (PageOutOfRange n total_pages)
              else
                let offset = 20 * (n - 1);
                    limit = (if n < total_pages then 20 else total - offset)
                in execute eng (SelectStocks (WhereIndustry ind) limit offset)
                     (select_stocks (WhereIndustry ind) limit offset))))"

definition get_recent_7_days_data :: "engine \<Rightarrow> string \<Rightarrow> daily_bar list io" where
  "get_recent_7_days_data eng code =
     (if code = [] then raise (InvalidArgument EmptyTsCode)
      else execute eng (SelectRecentDaily code) (select_recent_daily code))"



definition get_top3_predictions :: "engine \<Rightarrow> prediction list io" where
  "get_top3_predictions eng = execute eng SelectTop3 select_top3"

subsection \<open>Example data\<close>

definition example_stock :: "int \<Rightarrow> stock" where
  "example_stock i =
     \<lparr>stock_id = i, ts_code = ''000001.SZ'', symbol = ''000001'', name = ''PAB'',
      area = ''Shenzhen'', industry = ''Bank'', list_date = ''19910403''\<rparr>"

definition stocks_db :: "stock list \<Rightarrow> database" where
  "stocks_db rows = database_of (no_rows\<lparr>stocks_table := rows, curdate_value := 20000\<rparr>)"

text \<open>A table of \<open>k\<close> stocks with the ids \<open>1\<close> to \<open>k\<close>, stored with the highest id first.\<close>

definition listed :: "int \<Rightarrow> database" where
  "listed k = stocks_db (map example_stock (rev [1..k]))"

text \<open>
  An engine whose table shrinks after the first statement: the count sees 45 records,
  every later statement sees \<open>k\<close>.
\<close>

definition shrinking :: "int \<Rightarrow> engine" where
  "shrinking k = (\<lambda>i. if i = 0 then Some (listed 45) else Some (listed k))"

text \<open>
  An engine whose table changes after the first statement: the first count sees \<open>a\<close>
  records, every later statement sees \<open>b\<close>.
\<close>

definition changing :: "int \<Rightarrow> int \<Rightarrow> engine" where
  "changing a b = (\<lambda>i. if i = 0 then Some (listed a) else Some (listed b))"

definition example_bar :: "int \<Rightarrow> daily_bar" where
  "example_bar d = \<lparr>daily_ts_code = ''000001.SZ'', trade_date = d\<rparr>"

definition bars_db :: "daily_bar list \<Rightarrow> database" where
  "bars_db rows =
     database_of (no_rows\<lparr>stock_daily_data_table := rows, curdate_value := 20000\<rparr>)"

text \<open>
  Day 20000 is a Friday. \<open>daily_db\<close> holds one bar for each of the last 21 days,
  \<open>future_db\<close> a single bar dated on the Monday after the current date.
\<close>

definition daily_db :: database where
  "daily_db = bars_db (map example_bar [19980..20000])"

definition future_db :: database where
  "future_db = bars_db [example_bar 20003]"

section \<open>Properties\<close>

subsection \<open>Basic facts\<close>

lemmas io_defs = ret_def raise_def and_then_def execute_def

lemma table_size: "length (stocks db) < 2 ^ 64"
  by transfer (simp add: storable_def)

lemma matching_size: "int (length (filter P (stocks db))) < 2 ^ 64"
proof -
  have "length (filter P (stocks db)) \<le> length (stocks db)"
    by (rule length_filter_le)
  also have "\<dots> < 2 ^ 64"
    by (rule table_size)
  finally have "int (length (filter P (stocks db))) < int (2 ^ 64)"
    by (simp only: of_nat_less_iff)
  then show ?thesis by simp
qed

lemma stocks_stocks_db: "length rows < 2 ^ 64 \<Longrightarrow> stocks (stocks_db rows) = rows"
  by (simp add: stocks_db_def stocks.rep_eq database_of.rep_eq storable_def no_rows_def)

lemma bars_bars_db: "length rows < 2 ^ 64 \<Longrightarrow> stock_daily_data (bars_db rows) = rows"
  by (simp add: bars_db_def stock_daily_data.rep_eq database_of.rep_eq storable_def no_rows_def)

lemma curdate_bars_db: "length rows < 2 ^ 64 \<Longrightarrow> curdate (bars_db rows) = 20000"
  by (simp add: bars_db_def curdate.rep_eq database_of.rep_eq storable_def no_rows_def)

lemma steady_up: "steady db k = Some db"
  by (simp add: steady_def)

lemma pages_ceiling:
  fixes c :: int
  shows "(c + 20 - 1) div 20 = \<lceil>real_of_int c / 20\<rceil>"
proof -
  define z where "z = (c + 19) div 20"
  define r where "r = (c + 19) mod 20"
  have e: "20 * z + r = c + 19"
    unfolding z_def r_def by simp
  have m: "0 \<le> r" "r < 20"
    unfolding r_def by simp_all
  have lo: "20 * (z - 1) < c"
    using e m by arith
  have hi: "c \<le> 20 * z"
    using e m by arith
  have "real_of_int (20 * (z - 1)) < real_of_int c" "real_of_int c \<le> real_of_int (20 * z)"
    using lo hi by (simp_all only: of_int_less_iff of_int_le_iff)
  then have "\<lceil>real_of_int c / 20\<rceil> = z"
    by (intro ceiling_unique) simp_all
  then show ?thesis by (simp add: z_def)
qed

lemma pages_of_count:
  "(if int k > 0 then (int k + 20 - 1) div 20 else 0) =
   (if k = 0 then 0 else \<lceil>real k / 20\<rceil>)"
  using pages_ceiling [of "int k"] by simp

lemma pages_mono:
  fixes c c' :: int
  assumes "c \<le> c'"
  shows "(if c > 0 then (c + 20 - 1) div 20 else 0) \<le> (if c' > 0 then (c' + 20 - 1) div 20 else 0)"
proof (cases "c > 0")
  case True
  then have "(c + 20 - 1) div 20 \<le> (c' + 20 - 1) div 20"
    using assms by (intro zdiv_mono1) simp_all
  then show ?thesis using True assms by simp
next
  case False
  have "0 \<le> (c' + 20 - 1) div 20" if "c' > 0"
    using that by (intro pos_imp_zdiv_nonneg_iff [THEN iffD2]) simp_all
  then show ?thesis using False by simp
qed

lemma matches_area [simp]: "matches (WhereArea ar) = (\<lambda>r. area r = ar)"
  by (rule ext) simp

lemma matches_industry [simp]: "matches (WhereIndustry ind) = (\<lambda>r. industry r = ind)"
  by (rule ext) simp

lemma matches_none [simp]: "filter (matches NoFilter) xs = xs"
  by simp

lemma get_total_pages_up:
  assumes "eng (length tr) = Some db"
  shows "get_total_pages eng tr =
     (Inr (if int (length (stocks db)) > 0 then (int (length (stocks db)) + 20 - 1) div 20 else 0),
      tr @ [CountStocks NoFilter])"
  using assms by (simp add: get_total_pages_def get_total_records_def count_stocks_def io_defs)

lemma get_area_total_records_up:
  assumes "eng (length tr) = Some db"
  shows "get_area_total_records eng ar tr =
     (Inr (int (length [r\<leftarrow>stocks db. area r = ar])), tr @ [CountStocks (WhereArea ar)])"
  using assms by (simp add: get_area_total_records_def count_stocks_def io_defs)

lemma get_area_total_pages_up:
  assumes "eng (length tr) = Some db"
  shows "get_area_total_pages eng ar tr =
     (Inr (if int (length [r\<leftarrow>stocks db. area r = ar]) > 0
           then (int (length [r\<leftarrow>stocks db. area r = ar]) + 20 - 1) div 20 else 0),
      tr @ [CountStocks (WhereArea ar)])"
  using assms by (simp add: get_area_total_pages_def get_area_total_records_up io_defs)

lemma get_industry_total_records_up:
  assumes "eng (length tr) = Some db"
  shows "get_industry_total_records eng ind tr =
     (Inr (int (length [r\<leftarrow>stocks db. industry r = ind])), tr @ [CountStocks (WhereIndustry ind)])"
  using assms by (simp add: get_industry_total_records_def count_stocks_def io_defs)

lemma get_industry_total_pages_up:
  assumes "eng (length tr) = Some db"
  shows "get_industry_total_pages eng ind tr =
     (Inr (if int (length [r\<leftarrow>stocks db. industry r = ind]) > 0
           then (int (length [r\<leftarrow>stocks db. industry r = ind]) + 20 - 1) div 20 else 0),
      tr @ [CountStocks (WhereIndustry ind)])"
  using assms by (simp add: get_industry_total_pages_def get_industry_total_records_up io_defs)

lemma get_total_pages_result:
  assumes "fst (get_total_pages eng tr) = Inr total_pages"
  shows "get_total_pages eng tr = (Inr total_pages, tr @ [CountStocks NoFilter])"
  using assms
  by (auto simp: get_total_pages_def get_total_records_def count_stocks_def io_defs
      split: option.splits)

lemma get_total_pages_cases:
  assumes "fst (get_total_pages eng tr) = Inr total_pages"
  obtains db where "eng (length tr) = Some db"
    and "total_pages =
      (if int (length (stocks db)) > 0 then (int (length (stocks db)) + 20 - 1) div 20 else 0)"
  using assms
  by (auto simp: get_total_pages_def get_total_records_def count_stocks_def io_defs
      split: option.splits)

lemma pages_bounds:
  fixes c :: int
  shows "20 * ((c + 20 - 1) div 20) \<le> c + 19" and "c \<le> 20 * ((c + 20 - 1) div 20)"
proof -
  define z where "z = (c + 19) div 20"
  define r where "r = (c + 19) mod 20"
  have e: "20 * z + r = c + 19"
    unfolding z_def r_def by simp
  have m: "0 \<le> r" "r < 20"
    unfolding r_def by simp_all
  show "20 * ((c + 20 - 1) div 20) \<le> c + 19"
    using e m unfolding z_def by simp
  show "c \<le> 20 * ((c + 20 - 1) div 20)"
    using e m unfolding z_def by simp
qed

lemma page_offset_within:
  fixes c n :: int
  assumes "n \<le> (c + 20 - 1) div 20"
  shows "20 * (n - 1) < c"
  using assms pages_bounds(1) [of c] by arith

lemma inner_page_full:
  fixes c n :: int
  assumes "n < (c + 20 - 1) div 20"
  shows "20 * n \<le> c"
  using assms pages_bounds(1) [of c] by arith

lemma last_page_size:
  fixes c :: int
  shows "c - 20 * ((c + 20 - 1) div 20 - 1) \<le> 20" and "0 < c - 20 * ((c + 20 - 1) div 20 - 1)"
  using pages_bounds [of c] by arith+

lemma length_page:
  "int (length (take (nat limit) (drop (nat offset) xs))) = min limit (int (length xs) - offset)"
  if "0 \<le> limit" "0 \<le> offset" "offset \<le> int (length xs)"
  using that by (simp add: min_def) arith

lemma sorted_page: "sorted (map f xs) \<Longrightarrow> sorted (map f (take k (drop j xs)))"
  by (simp add: take_map [symmetric] drop_map [symmetric] sorted_wrt_take sorted_wrt_drop)

lemma area_page_run:
  fixes db :: database and ar :: string and n c :: int
  assumes c: "c = int (length [r\<leftarrow>stocks db. area r = ar])"
    and "ar \<noteq> []" and "1 \<le> n" and "0 < c" and "n \<le> (c + 20 - 1) div 20"
    and limit: "limit = (if n < (c + 20 - 1) div 20 then 20 else c - 20 * (n - 1))"
  shows "get_stocks_by_page_and_area (steady db) n ar tr =
     (Inr (take (nat limit) (drop (nat (20 * (n - 1)))
             (sort_key stock_id [r\<leftarrow>stocks db. area r = ar]))),
      tr @ [CountStocks (WhereArea ar), CountStocks (WhereArea ar),
            SelectStocks (WhereArea ar) limit (20 * (n - 1))])"
proof -
  define off where "off = 20 * (n - 1)"
  define tp where "tp = (c + 20 - 1) div 20"
  have off: "off < c" "0 \<le> off"
    using assms(3,5) page_offset_within [of n c] by (simp_all add: off_def)
  have le: "n \<le> tp"
    using assms(5) by (simp add: tp_def)
  have limit': "limit = (if n < tp then 20 else c - off)"
    by (simp add: limit tp_def off_def)
  have "c < 2 ^ 64"
    unfolding c by (rule matching_size)
  then have "0 \<le> limit" "limit \<le> 2 ^ 64 - 1" "off \<le> 2 ^ 64 - 1"
    using off by (simp_all add: limit')
  then have sel: "select_stocks (WhereArea ar) limit off db =
      Inr (take (nat limit) (drop (nat off) (sort_key stock_id [r\<leftarrow>stocks db. area r = ar])))"
    using off by (simp add: select_stocks_def)
  have recs: "get_area_total_records (steady db) ar t = (Inr c, t @ [CountStocks (WhereArea ar)])" for t
    unfolding c by (rule get_area_total_records_up [of _ _ db, OF steady_up])
  have pages: "get_area_total_pages (steady db) ar t = (Inr tp, t @ [CountStocks (WhereArea ar)])" for t
    using assms(4) get_area_total_pages_up [of "steady db" t db ar, OF steady_up]
    by (simp add: tp_def c)
  have "get_stocks_by_page_and_area (steady db) n ar tr =
     (Inr (take (nat limit) (drop (nat off) (sort_key stock_id [r\<leftarrow>stocks db. area r = ar]))),
      tr @ [CountStocks (WhereArea ar), CountStocks (WhereArea ar),
            SelectStocks (WhereArea ar) limit off])"
    unfolding get_stocks_by_page_and_area_def Let_def off_def [symmetric]
    using assms(2-4) le sel
    by (simp add: and_then_def ret_def raise_def execute_def steady_up recs pages
        tp_def [symmetric] limit' [symmetric])
  then show ?thesis
    by (simp only: off_def)
qed

lemma industry_page_run:
  fixes db :: database and ind :: string and n c :: int
  assumes c: "c = int (length [r\<leftarrow>stocks db. industry r = ind])"
    and "ind \<noteq> []" and "1 \<le> n" and "0 < c" and "n \<le> (c + 20 - 1) div 20"
    and limit: "limit = (if n < (c + 20 - 1) div 20 then 20 else c - 20 * (n - 1))"
  shows "get_stocks_by_page_and_industry (steady db) n ind tr =
     (Inr (take (nat limit) (drop (nat (20 * (n - 1)))
             (sort_key stock_id [r\<leftarrow>stocks db. industry r = ind]))),
      tr @ [CountStocks (WhereIndustry ind), CountStocks (WhereIndustry ind),
            SelectStocks (WhereIndustry ind) limit (20 * (n - 1))])"
proof -
  define off where "off = 20 * (n - 1)"
  define tp where "tp = (c + 20 - 1) div 20"
  have off: "off < c" "0 \<le> off"
    using assms(3,5) page_offset_within [of n c] by (simp_all add: off_def)
  have le: "n \<le> tp"
    using assms(5) by (simp add: tp_def)
  have limit': "limit = (if n < tp then 20 else c - off)"
    by (simp add: limit tp_def off_def)
  have "c < 2 ^ 64"
    unfolding c by (rule matching_size)
  then have "0 \<le> limit" "limit \<le> 2 ^ 64 - 1" "off \<le> 2 ^ 64 - 1"
    using off by (simp_all add: limit')
  then have sel: "select_stocks (WhereIndustry ind) limit off db =
      Inr (take (nat limit) (drop (nat off) (sort_key stock_id [r\<leftarrow>stocks db. industry r = ind])))"
    using off by (simp add: select_stocks_def)
  have recs: "get_industry_total_records (steady db) ind t = (Inr c, t @ [CountStocks (WhereIndustry ind)])" for t
    unfolding c by (rule get_industry_total_records_up [of _ _ db, OF steady_up])
  have pages: "get_industry_total_pages (steady db) ind t = (Inr tp, t @ [CountStocks (WhereIndustry ind)])" for t
    using assms(4) get_industry_total_pages_up [of "steady db" t db ind, OF steady_up]
    by (simp add: tp_def c)
  have "get_stocks_by_page_and_industry (steady db) n ind tr =
     (Inr (take (nat limit) (drop (nat off) (sort_key stock_id [r\<leftarrow>stocks db. industry r = ind]))),
      tr @ [CountStocks (WhereIndustry ind), CountStocks (WhereIndustry ind),
            SelectStocks (WhereIndustry ind) limit off])"
    unfolding get_stocks_by_page_and_industry_def Let_def off_def [symmetric]
    using assms(2-4) le sel
    by (simp add: and_then_def ret_def raise_def execute_def steady_up recs pages
        tp_def [symmetric] limit' [symmetric])
  then show ?thesis
    by (simp only: off_def)
qed

lemma execute_snd: "snd (execute eng stmt answer tr) = tr @ [stmt]"
  by (simp add: execute_def split: option.splits)

lemma get_area_total_records_result:
  assumes "fst (get_area_total_records eng ar tr) = Inr x"
  shows "get_area_total_records eng ar tr = (Inr x, tr @ [CountStocks (WhereArea ar)])"
  using assms
  by (auto simp: get_area_total_records_def count_stocks_def io_defs split: option.splits)

lemma get_area_total_pages_result:
  assumes "fst (get_area_total_pages eng ar tr) = Inr x"
  shows "get_area_total_pages eng ar tr = (Inr x, tr @ [CountStocks (WhereArea ar)])"
  using assms
  by (auto simp: get_area_total_pages_def get_area_total_records_def count_stocks_def io_defs
      split: option.splits)

lemma get_industry_total_records_result:
  assumes "fst (get_industry_total_records eng ind tr) = Inr x"
  shows "get_industry_total_records eng ind tr = (Inr x, tr @ [CountStocks (WhereIndustry ind)])"
  using assms
  by (auto simp: get_industry_total_records_def count_stocks_def io_defs split: option.splits)

lemma get_industry_total_pages_result:
  assumes "fst (get_industry_total_pages eng ind tr) = Inr x"
  shows "get_industry_total_pages eng ind tr = (Inr x, tr @ [CountStocks (WhereIndustry ind)])"
  using assms
  by (auto simp: get_industry_total_pages_def get_industry_total_records_def count_stocks_def
      io_defs split: option.splits)

lemma area_page_trace:
  assumes "ar \<noteq> []" and "1 \<le> n"
    and recs: "fst (get_area_total_records eng ar tr) = Inr area_total"
    and pages: "fst (get_area_total_pages eng ar (tr @ [CountStocks (WhereArea ar)])) =
      Inr total_pages"
    and "0 < area_total" and "n \<le> total_pages"
  shows "snd (get_stocks_by_page_and_area eng n ar tr) =
     tr @ [CountStocks (WhereArea ar), CountStocks (WhereArea ar),
           SelectStocks (WhereArea ar)
             (if n < total_pages then 20 else area_total - 20 * (n - 1)) (20 * (n - 1))]"
proof -
  define off where "off = 20 * (n - 1)"
  have "snd (get_stocks_by_page_and_area eng n ar tr) =
     tr @ [CountStocks (WhereArea ar), CountStocks (WhereArea ar),
           SelectStocks (WhereArea ar) (if n < total_pages then 20 else area_total - off) off]"
    unfolding get_stocks_by_page_and_area_def Let_def off_def [symmetric]
    using assms(1,2,5,6)
    by (simp add: and_then_def raise_def ret_def execute_snd
        get_area_total_records_result [OF recs] get_area_total_pages_result [OF pages])
  then show ?thesis
    by (simp only: off_def)
qed

lemma industry_page_trace:
  assumes "ind \<noteq> []" and "1 \<le> n"
    and recs: "fst (get_industry_total_records eng ind tr) = Inr matched"
    and pages: "fst (get_industry_total_pages eng ind (tr @ [CountStocks (WhereIndustry ind)])) =
      Inr total_pages"
    and "0 < matched" and "n \<le> total_pages"
  shows "snd (get_stocks_by_page_and_industry eng n ind tr) =
     tr @ [CountStocks (WhereIndustry ind), CountStocks (WhereIndustry ind),
           SelectStocks (WhereIndustry ind)
             (if n < total_pages then 20 else matched - 20 * (n - 1)) (20 * (n - 1))]"
proof -
  define off where "off = 20 * (n - 1)"
  have "snd (get_stocks_by_page_and_industry eng n ind tr) =
     tr @ [CountStocks (WhereIndustry ind), CountStocks (WhereIndustry ind),
           SelectStocks (WhereIndustry ind) (if n < total_pages then 20 else matched - off) off]"
    unfolding get_stocks_by_page_and_industry_def Let_def off_def [symmetric]
    using assms(1,2,5,6)
    by (simp add: and_then_def raise_def ret_def execute_snd
        get_industry_total_records_result [OF recs] get_industry_total_pages_result [OF pages])
  then show ?thesis
    by (simp only: off_def)
qed

lemma length_filtered_page:
  fixes xs :: "'a list"
  assumes "0 \<le> limit" and "0 \<le> offset" and "offset + limit \<le> int (length xs)"
  shows "int (length (take (nat limit) (drop (nat offset) xs))) = limit"
  using assms by simp

subsection \<open>Weekdays and recency\<close>

lemma same_residue_in_window:
  fixes c d k m q1 q2 :: int
  assumes "0 \<le> k" and "k < 7" and "c = 7 * q1 + m + k" and "d = 7 * q2 + m"
    and "c - 14 \<le> d" and "d \<le> c"
  shows "d = c - k \<or> d = c - k - 7 \<or> d = c - k - 14"
proof -
  have "q2 \<le> q1" "q1 - 2 \<le> q2"
    using assms by arith+
  then have "q2 = q1 \<or> q2 = q1 - 1 \<or> q2 = q1 - 2"
    by arith
  then show ?thesis
    using assms(3,4) by auto
qed

lemma weekend_days:
  fixes c d :: int
  assumes "c - 14 \<le> d" and "d \<le> c" and "\<not> weekday d < 5"
  shows "d \<in> {c - (c - 2) mod 7, c - (c - 2) mod 7 - 7, c - (c - 2) mod 7 - 14,
               c - (c - 3) mod 7, c - (c - 3) mod 7 - 7, c - (c - 3) mod 7 - 14}"
proof -
  define w where "w = (d + 3) mod 7"
  define q2 where "q2 = (d + 3) div 7"
  have d: "d + 3 = 7 * q2 + w"
    by (simp add: w_def q2_def)
  have "0 \<le> w" "w < 7" "\<not> w < 5"
    using assms(3) by (simp_all add: w_def weekday_def)
  then have "w = 5 \<or> w = 6"
    by arith
  then show ?thesis
  proof
    assume "w = 5"
    define k where "k = (c - 2) mod 7"
    define q1 where "q1 = (c - 2) div 7"
    have "c - 2 = 7 * q1 + k"
      by (simp add: k_def q1_def)
    then have c: "c = 7 * q1 + 2 + k"
      by simp
    have d': "d = 7 * q2 + 2"
      using d \<open>w = 5\<close> by simp
    have k: "0 \<le> k" "k < 7"
      by (simp_all add: k_def)
    have "d = c - k \<or> d = c - k - 7 \<or> d = c - k - 14"
      using k c d' assms(1,2) by (rule same_residue_in_window)
    then show ?thesis
      unfolding k_def by blast
  next
    assume "w = 6"
    define k where "k = (c - 3) mod 7"
    define q1 where "q1 = (c - 3) div 7"
    have "c - 3 = 7 * q1 + k"
      by (simp add: k_def q1_def)
    then have c: "c = 7 * q1 + 3 + k"
      by simp
    have d': "d = 7 * q2 + 3"
      using d \<open>w = 6\<close> by simp
    have k: "0 \<le> k" "k < 7"
      by (simp_all add: k_def)
    have "d = c - k \<or> d = c - k - 7 \<or> d = c - k - 14"
      using k c d' assms(1,2) by (rule same_residue_in_window)
    then show ?thesis
      unfolding k_def by blast
  qed
qed

lemma weekdays_in_window:
  fixes c :: int
  shows "7 \<le> card {d. c - 14 \<le> d \<and> d \<le> c \<and> weekday d < 5}"
proof -
  define weekend where
    "weekend = {c - (c - 2) mod 7, c - (c - 2) mod 7 - 7, c - (c - 2) mod 7 - 14,
                c - (c - 3) mod 7, c - (c - 3) mod 7 - 7, c - (c - 3) mod 7 - 14}"
  have fin: "finite weekend"
    by (simp add: weekend_def)
  have "card (set [c - (c - 2) mod 7, c - (c - 2) mod 7 - 7, c - (c - 2) mod 7 - 14,
                   c - (c - 3) mod 7, c - (c - 3) mod 7 - 7, c - (c - 3) mod 7 - 14])
        \<le> length [c - (c - 2) mod 7, c - (c - 2) mod 7 - 7, c - (c - 2) mod 7 - 14,
                   c - (c - 3) mod 7, c - (c - 3) mod 7 - 7, c - (c - 3) mod 7 - 14]"
    by (rule card_length)
  then have six: "card weekend \<le> 6"
    by (simp add: weekend_def)
  have sub: "{c - 14..c} - weekend \<subseteq> {d. c - 14 \<le> d \<and> d \<le> c \<and> weekday d < 5}"
  proof
    fix d
    assume "d \<in> {c - 14..c} - weekend"
    then have d: "c - 14 \<le> d" "d \<le> c" "d \<notin> weekend"
      by simp_all
    have "weekday d < 5"
    proof (rule ccontr)
      assume "\<not> weekday d < 5"
      with d(1,2) have "d \<in> weekend"
        unfolding weekend_def by (rule weekend_days)
      with d(3) show False by contradiction
    qed
    with d show "d \<in> {d. c - 14 \<le> d \<and> d \<le> c \<and> weekday d < 5}"
      by simp
  qed
  have "card {c - 14..c} - card weekend \<le> card ({c - 14..c} - weekend)"
    by (rule diff_card_le_card_Diff [OF fin])
  moreover have "card {c - 14..c} = 15"
    by simp
  ultimately have "9 \<le> card ({c - 14..c} - weekend)"
    using six by simp
  also have "\<dots> \<le> card {d. c - 14 \<le> d \<and> d \<le> c \<and> weekday d < 5}"
  proof (rule card_mono [OF _ sub])
    show "finite {d. c - 14 \<le> d \<and> d \<le> c \<and> weekday d < 5}"
      by (rule finite_subset [of _ "{c - 14..c}"]) auto
  qed
  finally show ?thesis by simp
qed

lemma newest_first:
  fixes f :: "'a \<Rightarrow> int"
  defines "ys \<equiv> \<lambda>xs. rev (sort_key f xs)"
  shows "sorted (rev (map f (take k (ys xs))))"
    and "r \<in> set xs \<Longrightarrow> r \<notin> set (take k (ys xs)) \<Longrightarrow> x \<in> set (take k (ys xs)) \<Longrightarrow> f r \<le> f x"
proof -
  have desc: "sorted_wrt (\<lambda>a b. f b \<le> f a) (ys xs)"
    unfolding ys_def sorted_wrt_rev using sorted_sort_key [of f xs]
    by (simp add: sorted_map)
  then have "sorted_wrt (\<lambda>a b. f b \<le> f a) (take k (ys xs))"
    by (rule sorted_wrt_take)
  then show "sorted (rev (map f (take k (ys xs))))"
    by (simp add: sorted_wrt_rev sorted_wrt_map)
  assume r: "r \<in> set xs" "r \<notin> set (take k (ys xs))" and x: "x \<in> set (take k (ys xs))"
  have "r \<in> set (ys xs)"
    using r(1) by (simp add: ys_def)
  then have "r \<in> set (take k (ys xs)) \<union> set (drop k (ys xs))"
    by (simp only: set_append [symmetric] append_take_drop_id)
  with r(2) have "r \<in> set (drop k (ys xs))"
    by simp
  moreover have "sorted_wrt (\<lambda>a b. f b \<le> f a) (take k (ys xs) @ drop k (ys xs))"
    using desc by simp
  ultimately show "f r \<le> f x"
    using x unfolding sorted_wrt_append by blast
qed

lemma enough_bars:
  assumes "\<forall>d. today - 14 \<le> d \<and> d \<le> today \<and> weekday d < 5 \<longrightarrow>
      (\<exists>r \<in> set bars. daily_ts_code r = code \<and> trade_date r = d)"
  shows "7 \<le> length (filter (recent_bar code today) bars)"
proof -
  let ?W = "{d. today - 14 \<le> d \<and> d \<le> today \<and> weekday d < 5}"
  let ?fs = "filter (recent_bar code today) bars"
  have "?W \<subseteq> trade_date ` set ?fs"
  proof
    fix d assume "d \<in> ?W"
    then have d: "today - 14 \<le> d" "d \<le> today" "weekday d < 5"
      by simp_all
    with assms obtain r where "r \<in> set bars" "daily_ts_code r = code" "trade_date r = d"
      by blast
    with d have "r \<in> set ?fs"
      by (simp add: recent_bar_def)
    with \<open>trade_date r = d\<close> show "d \<in> trade_date ` set ?fs"
      by blast
  qed
  then have "card ?W \<le> card (trade_date ` set ?fs)"
    by (intro card_mono) simp_all
  also have "\<dots> \<le> card (set ?fs)"
    by (rule card_image_le) simp
  also have "\<dots> \<le> length ?fs"
    by (rule card_length)
  finally show ?thesis
    using weekdays_in_window [of today] by simp
qed

subsection \<open>Facts about the example data\<close>

lemma stocks_listed: "k < 2 ^ 64 \<Longrightarrow> stocks (listed k) = map example_stock (rev [1..k])"
  by (simp add: listed_def stocks_stocks_db)

lemma length_listed: "0 \<le> k \<Longrightarrow> k < 2 ^ 64 \<Longrightarrow> length (stocks (listed k)) = nat k"
  by (simp add: stocks_listed)

lemma area_listed:
  "k < 2 ^ 64 \<Longrightarrow> [r\<leftarrow>stocks (listed k). area r = ''Shenzhen''] = stocks (listed k)"
  by (simp add: stocks_listed example_stock_def)

lemma industry_listed:
  "k < 2 ^ 64 \<Longrightarrow> [r\<leftarrow>stocks (listed k). industry r = ''Bank''] = stocks (listed k)"
  by (simp add: stocks_listed example_stock_def)

lemma total_pages_45: "fst (get_total_pages (steady (listed 45)) tr) = Inr 3"
  by (simp add: get_total_pages_up [of _ _ "listed 45", OF steady_up] length_listed)

lemma area_pages_45: "fst (get_area_total_pages (steady (listed 45)) ''Shenzhen'' tr) = Inr 3"
  by (simp add: get_area_total_pages_up [of _ _ "listed 45", OF steady_up] area_listed length_listed)

lemma industry_pages_45: "fst (get_industry_total_pages (steady (listed 45)) ''Bank'' tr) = Inr 3"
  by (simp add: get_industry_total_pages_up [of _ _ "listed 45", OF steady_up]
      industry_listed length_listed)

lemma area_records_45: "fst (get_area_total_records (steady (listed 45)) ''Shenzhen'' tr) = Inr 45"
  by (simp add: get_area_total_records_up [of _ _ "listed 45", OF steady_up] area_listed length_listed)

lemma industry_records_45:
  "fst (get_industry_total_records (steady (listed 45)) ''Bank'' tr) = Inr 45"
  by (simp add: get_industry_total_records_up [of _ _ "listed 45", OF steady_up]
      industry_listed length_listed)

lemma area_count_listed:
  "0 \<le> k \<Longrightarrow> k < 2 ^ 64 \<Longrightarrow>
   count_stocks (WhereArea ''Shenzhen'') (listed k) = Inr k"
  by (simp add: count_stocks_def area_listed length_listed)

lemma stocks_listed_0: "stocks (listed 0) = []"
  by (simp add: stocks_listed)

lemma shrinking_pages: "fst (get_total_pages (shrinking k) []) = Inr 3"
  by (simp add: get_total_pages_up [of _ _ "listed 45"] shrinking_def length_listed)

lemma bars_daily_db: "stock_daily_data daily_db = map example_bar [19980..20000]"
  by (simp add: daily_db_def bars_bars_db)

lemma curdate_daily_db: "curdate daily_db = 20000"
  by (simp add: daily_db_def curdate_bars_db)

lemma bars_future_db: "stock_daily_data future_db = [example_bar 20003]"
  by (simp add: future_db_def bars_bars_db)

lemma curdate_future_db: "curdate future_db = 20000"
  by (simp add: future_db_def curdate_bars_db)

lemma daily_db_covered:
  "\<forall>d. curdate daily_db - 14 \<le> d \<and> d \<le> curdate daily_db \<and> weekday d < 5 \<longrightarrow>
     (\<exists>r \<in> set (stock_daily_data daily_db). daily_ts_code r = ''000001.SZ'' \<and> trade_date r = d)"
proof (intro allI impI)
  fix d
  assume "curdate daily_db - 14 \<le> d \<and> d \<le> curdate daily_db \<and> weekday d < 5"
  then have "d \<in> {19980..20000}"
    by (simp add: curdate_daily_db)
  moreover have "set (stock_daily_data daily_db) = example_bar ` {19980..20000}"
    by (simp only: bars_daily_db set_map set_upto)
  ultimately have "example_bar d \<in> set (stock_daily_data daily_db)"
    by blast
  moreover have "daily_ts_code (example_bar d) = ''000001.SZ''" "trade_date (example_bar d) = d"
    by (simp_all add: example_bar_def)
  ultimately show "\<exists>r \<in> set (stock_daily_data daily_db).
      daily_ts_code r = ''000001.SZ'' \<and> trade_date r = d"
    by blast
qed

subsection \<open>Page counts\<close>

text \<open>
  Claim C5. Whenever the count statement is answered, \<^verbatim>\<open>get_total_pages\<close> and its
  area and industry variants return 0 for a count of 0 and the ceiling of count / 20
  otherwise; 25 records give 2 pages; and a database with at least as many (matching)
  records never has fewer pages.
\<close>

theorem total_pages_ceiling:
  assumes up: "eng (length tr) = Some db" and up': "eng' (length tr') = Some db'"
  shows
    "fst (get_total_pages eng tr) =
       Inr (if length (stocks db) = 0 then 0 else \<lceil>real (length (stocks db)) / 20\<rceil>)
     \<and> fst (get_area_total_pages eng ar tr) =
       Inr (if length [r\<leftarrow>stocks db. area r = ar] = 0 then 0
            else \<lceil>real (length [r\<leftarrow>stocks db. area r = ar]) / 20\<rceil>)
     \<and> fst (get_industry_total_pages eng ind tr) =
       Inr (if length [r\<leftarrow>stocks db. industry r = ind] = 0 then 0
            else \<lceil>real (length [r\<leftarrow>stocks db. industry r = ind]) / 20\<rceil>)
     \<and> (length (stocks db) = 25 \<longrightarrow> fst (get_total_pages eng tr) = Inr 2)
     \<and> (length (stocks db) \<le> length (stocks db') \<longrightarrow>
          (\<exists>p p'. fst (get_total_pages eng tr) = Inr p
             \<and> fst (get_total_pages eng' tr') = Inr p' \<and> p \<le> p'))
     \<and> (length [r\<leftarrow>stocks db. area r = ar] \<le> length [r\<leftarrow>stocks db'. area r = ar] \<longrightarrow>
          (\<exists>p p'. fst (get_area_total_pages eng ar tr) = Inr p
             \<and> fst (get_area_total_pages eng' ar tr') = Inr p' \<and> p \<le> p'))
     \<and> (length [r\<leftarrow>stocks db. industry r = ind] \<le> length [r\<leftarrow>stocks db'. industry r = ind] \<longrightarrow>
          (\<exists>p p'. fst (get_industry_total_pages eng ind tr) = Inr p
             \<and> fst (get_industry_total_pages eng' ind tr') = Inr p' \<and> p \<le> p'))"
proof -
  have a: "fst (get_total_pages eng tr) =
       Inr (if length (stocks db) = 0 then 0 else \<lceil>real (length (stocks db)) / 20\<rceil>)"
    unfolding get_total_pages_up [of eng tr db, OF up] fst_conv pages_of_count ..
  have b: "fst (get_area_total_pages eng ar tr) =
       Inr (if length [r\<leftarrow>stocks db. area r = ar] = 0 then 0
            else \<lceil>real (length [r\<leftarrow>stocks db. area r = ar]) / 20\<rceil>)"
    unfolding get_area_total_pages_up [of eng tr db, OF up] fst_conv pages_of_count ..
  have c: "fst (get_industry_total_pages eng ind tr) =
       Inr (if length [r\<leftarrow>stocks db. industry r = ind] = 0 then 0
            else \<lceil>real (length [r\<leftarrow>stocks db. industry r = ind]) / 20\<rceil>)"
    unfolding get_industry_total_pages_up [of eng tr db, OF up] fst_conv pages_of_count ..
  have d: "length (stocks db) = 25 \<longrightarrow> fst (get_total_pages eng tr) = Inr 2"
    by (simp add: get_total_pages_up [of eng tr db, OF up])
  have e: "length (stocks db) \<le> length (stocks db') \<longrightarrow>
          (\<exists>p p'. fst (get_total_pages eng tr) = Inr p
             \<and> fst (get_total_pages eng' tr') = Inr p' \<and> p \<le> p')"
    unfolding get_total_pages_up [of eng tr db, OF up] get_total_pages_up [of eng' tr' db', OF up'] fst_conv
    using pages_mono [of "int (length (stocks db))" "int (length (stocks db'))"] by auto
  have f: "length [r\<leftarrow>stocks db. area r = ar] \<le> length [r\<leftarrow>stocks db'. area r = ar] \<longrightarrow>
          (\<exists>p p'. fst (get_area_total_pages eng ar tr) = Inr p
             \<and> fst (get_area_total_pages eng' ar tr') = Inr p' \<and> p \<le> p')"
    unfolding get_area_total_pages_up [of eng tr db, OF up] get_area_total_pages_up [of eng' tr' db', OF up'] fst_conv
    using pages_mono [of "int (length [r\<leftarrow>stocks db. area r = ar])"
        "int (length [r\<leftarrow>stocks db'. area r = ar])"] by auto
  have g: "length [r\<leftarrow>stocks db. industry r = ind] \<le> length [r\<leftarrow>stocks db'. industry r = ind] \<longrightarrow>
          (\<exists>p p'. fst (get_industry_total_pages eng ind tr) = Inr p
             \<and> fst (get_industry_total_pages eng' ind tr') = Inr p' \<and> p \<le> p')"
    unfolding get_industry_total_pages_up [of eng tr db, OF up] get_industry_total_pages_up [of eng' tr' db', OF up'] fst_conv
    using pages_mono [of "int (length [r\<leftarrow>stocks db. industry r = ind])"
        "int (length [r\<leftarrow>stocks db'. industry r = ind])"] by auto
  from a b c d e f g show ?thesis by blast
qed


theorem total_pages_ceiling_witness:
  "steady (listed 25) (length []) = Some (listed 25)
   \<and> steady (listed 45) (length []) = Some (listed 45)
   \<and> length (stocks (listed 25)) = 25
   \<and> length (stocks (listed 25)) \<le> length (stocks (listed 45))
   \<and> fst (get_total_pages (steady (listed 25)) []) = Inr 2
   \<and> fst (get_total_pages (steady (listed 45)) []) = Inr 3"
proof -
  have up: "steady (listed 25) (length []) = Some (listed 25)"
    and up': "steady (listed 45) (length []) = Some (listed 45)"
    by (simp_all add: steady_def)
  have l: "length (stocks (listed 25)) = 25" "length (stocks (listed 45)) = 45"
    by (simp_all add: length_listed)
  have r: "\<lceil>real 25 / 20\<rceil> = 2" "\<lceil>real 45 / 20\<rceil> = 3"
    by (simp_all add: ceiling_eq_iff)
  show ?thesis
    using total_pages_ceiling [of "steady (listed 25)" "[]" "listed 25"
        "steady (listed 45)" "[]" "listed 45" "''Shenzhen''" "''Bank''", OF up up']
      total_pages_ceiling [of "steady (listed 45)" "[]" "listed 45"
        "steady (listed 25)" "[]" "listed 25" "''Shenzhen''" "''Bank''", OF up' up] up up' l r
    by simp
qed

subsection \<open>Argument and page validation\<close>

text \<open>
  Claim C6. Every paginated fetch (the full list, by area, by industry) fails with
  \<open>InvalidArgument\<close> for a page number below 1. With the default upper-bound check
  of the full list, and for a non-empty area or industry value, a page number above a
  positive total page count fails with \<open>PageOutOfRange\<close>, which carries the
  requested page and the total page count.
\<close>

theorem page_number_validation:
  "(n < 1 \<longrightarrow>
      fst (get_stocks_by_page_number eng n check_total tr) = Inl (InvalidArgument PageBelowOne)
      \<and> fst (get_stocks_by_page_and_area eng n ar tr) = Inl (InvalidArgument PageBelowOne)
      \<and> fst (get_stocks_by_page_and_industry eng n ind tr) = Inl (InvalidArgument PageBelowOne))
   \<and> (fst (get_total_pages eng tr) = Inr total_pages \<and> 0 < total_pages \<and> total_pages < n \<longrightarrow>
      fst (get_stocks_by_page_number eng n True tr) = Inl (PageOutOfRange n total_pages))
   \<and> (ar \<noteq> [] \<and> fst (get_area_total_pages (steady db) ar tr) = Inr total_pages
        \<and> 0 < total_pages \<and> total_pages < n \<longrightarrow>
      fst (get_stocks_by_page_and_area (steady db) n ar tr) = Inl (PageOutOfRange n total_pages))
   \<and> (ind \<noteq> [] \<and> fst (get_industry_total_pages (steady db) ind tr) = Inr total_pages
        \<and> 0 < total_pages \<and> total_pages < n \<longrightarrow>
      fst (get_stocks_by_page_and_industry (steady db) n ind tr) = Inl (PageOutOfRange n total_pages))"
proof -
  have a: "n < 1 \<longrightarrow>
      fst (get_stocks_by_page_number eng n check_total tr) = Inl (InvalidArgument PageBelowOne)
      \<and> fst (get_stocks_by_page_and_area eng n ar tr) = Inl (InvalidArgument PageBelowOne)
      \<and> fst (get_stocks_by_page_and_industry eng n ind tr) = Inl (InvalidArgument PageBelowOne)"
    by (simp add: get_stocks_by_page_number_def get_stocks_by_page_and_area_def
        get_stocks_by_page_and_industry_def raise_def)
  have b: "fst (get_stocks_by_page_number eng n True tr) = Inl (PageOutOfRange n total_pages)"
    if "fst (get_total_pages eng tr) = Inr total_pages" "0 < total_pages" "total_pages < n"
    using that get_total_pages_result [OF that(1)]
    by (simp add: get_stocks_by_page_number_def and_then_def raise_def)
  have up: "steady db k = Some db" for k
    by (simp add: steady_def)
  have c: "fst (get_stocks_by_page_and_area (steady db) n ar tr) = Inl (PageOutOfRange n total_pages)"
    if "ar \<noteq> []" "fst (get_area_total_pages (steady db) ar tr) = Inr total_pages"
      "0 < total_pages" "total_pages < n"
    using that
    by (simp add: get_stocks_by_page_and_area_def and_then_def raise_def ret_def
        get_area_total_records_up [of "steady db" _ db, OF up]
        get_area_total_pages_up [of "steady db" _ db, OF up] split: if_splits)
  have d: "fst (get_stocks_by_page_and_industry (steady db) n ind tr) = Inl (PageOutOfRange n total_pages)"
    if "ind \<noteq> []" "fst (get_industry_total_pages (steady db) ind tr) = Inr total_pages"
      "0 < total_pages" "total_pages < n"
    using that
    by (simp add: get_stocks_by_page_and_industry_def and_then_def raise_def ret_def
        get_industry_total_records_up [of "steady db" _ db, OF up]
        get_industry_total_pages_up [of "steady db" _ db, OF up] split: if_splits)
  from a b c d show ?thesis by blast
qed

theorem page_number_validation_witness:
  "fst (get_stocks_by_page_number (steady (listed 45)) 0 True []) = Inl (InvalidArgument PageBelowOne)
   \<and> fst (get_total_pages (steady (listed 45)) []) = Inr 3
   \<and> fst (get_stocks_by_page_number (steady (listed 45)) 4 True []) = Inl (PageOutOfRange 4 3)
   \<and> fst (get_stocks_by_page_and_area (steady (listed 45)) 4 ''Shenzhen'' []) = Inl (PageOutOfRange 4 3)
   \<and> fst (get_stocks_by_page_and_industry (steady (listed 45)) 4 ''Bank'' []) = Inl (PageOutOfRange 4 3)"
  using page_number_validation [of 0 "steady (listed 45)" True "[]" "''Shenzhen''" "''Bank''" 3 "listed 45"]
    page_number_validation [of 4 "steady (listed 45)" True "[]" "''Shenzhen''" "''Bank''" 3 "listed 45"]
  by (simp add: total_pages_45 area_pages_45 industry_pages_45)

text \<open>
  Claim C7. The lookups by symbol and by name fail with \<open>InvalidArgument\<close> exactly
  when the value is the empty string, whatever the storage does; for a non-empty value
  that no row of the answering snapshot carries they return the not-found result
  \<open>None\<close> and no error.
\<close>

theorem point_lookup_outcomes:
  "((\<exists>k. fst (get_stock_by_symbol eng sy tr) = Inl (InvalidArgument k)) \<longleftrightarrow> sy = [])
   \<and> ((\<exists>k. fst (get_stock_by_name eng nm tr) = Inl (InvalidArgument k)) \<longleftrightarrow> nm = [])
   \<and> (sy \<noteq> [] \<and> eng (length tr) = Some db \<and> (\<forall>r \<in> set (stocks db). symbol r \<noteq> sy) \<longrightarrow>
        fst (get_stock_by_symbol eng sy tr) = Inr None)
   \<and> (nm \<noteq> [] \<and> eng (length tr) = Some db \<and> (\<forall>r \<in> set (stocks db). name r \<noteq> nm) \<longrightarrow>
        fst (get_stock_by_name eng nm tr) = Inr None)"
proof -
  have a: "(\<exists>k. fst (get_stock_by_symbol eng sy tr) = Inl (InvalidArgument k)) \<longleftrightarrow> sy = []"
    by (auto simp: get_stock_by_symbol_def select_one_stock_def execute_def raise_def
        split: option.splits)
  have b: "(\<exists>k. fst (get_stock_by_name eng nm tr) = Inl (InvalidArgument k)) \<longleftrightarrow> nm = []"
    by (auto simp: get_stock_by_name_def select_one_stock_def execute_def raise_def
        split: option.splits)
  have c: "fst (get_stock_by_symbol eng sy tr) = Inr None"
    if "sy \<noteq> []" "eng (length tr) = Some db" "\<forall>r \<in> set (stocks db). symbol r \<noteq> sy"
    using that
    by (simp add: get_stock_by_symbol_def select_one_stock_def execute_def find_None_iff)
  have d: "fst (get_stock_by_name eng nm tr) = Inr None"
    if "nm \<noteq> []" "eng (length tr) = Some db" "\<forall>r \<in> set (stocks db). name r \<noteq> nm"
    using that
    by (simp add: get_stock_by_name_def select_one_stock_def execute_def find_None_iff)
  from a b c d show ?thesis by blast
qed

theorem point_lookup_outcomes_witness:
  "(\<exists>k. fst (get_stock_by_symbol (steady (listed 45)) [] []) = Inl (InvalidArgument k))
   \<and> (\<exists>k. fst (get_stock_by_name (steady (listed 45)) [] []) = Inl (InvalidArgument k))
   \<and> fst (get_stock_by_symbol (steady (listed 45)) ''DOESNOTEXIST'' []) = Inr None
   \<and> fst (get_stock_by_name (steady (listed 45)) ''DOESNOTEXIST'' []) = Inr None"
  using point_lookup_outcomes [of "steady (listed 45)" "[]" "[]" "[]" "listed 45"]
    point_lookup_outcomes [of "steady (listed 45)" "''DOESNOTEXIST''" "[]" "''DOESNOTEXIST''" "listed 45"]
  by (simp add: steady_up stocks_listed example_stock_def)



text \<open>
  Claim C10, as amended. With \<^verbatim>\<open>check_total=False\<close> the full-list fetch performs no
  upper-bound validation: a page number below 1 still raises \<open>InvalidArgument\<close>; for
  every page number from 1 on whose offset 20 * (n - 1) is at most \<open>2 ^ 64 - 1\<close>, the
  only statement issued is the page query and its rows are returned; when that offset is
  at or beyond the record count the result is the empty list. For a larger page number the
  database rejects the page query and the call fails with the storage failure. Neither
  out-of-range error is ever raised.
\<close>

theorem unchecked_page_number:
  "(n < 1 \<longrightarrow>
      fst (get_stocks_by_page_number eng n False tr) = Inl (InvalidArgument PageBelowOne))
   \<and> (1 \<le> n \<and> 20 * (n - 1) \<le> 2 ^ 64 - 1 \<and> eng (length tr) = Some db
        \<and> int (length (stocks db)) \<le> 20 * (n - 1) \<longrightarrow>
      get_stocks_by_page_number eng n False tr =
        (Inr [], tr @ [SelectStocks NoFilter 20 (20 * (n - 1))]))
   \<and> (1 \<le> n \<and> 20 * (n - 1) \<le> 2 ^ 64 - 1 \<and> eng (length tr) = Some db \<longrightarrow>
      get_stocks_by_page_number eng n False tr =
        (Inr (take 20 (drop (nat (20 * (n - 1))) (sort_key stock_id (stocks db)))),
         tr @ [SelectStocks NoFilter 20 (20 * (n - 1))]))
   \<and> (1 \<le> n \<and> 2 ^ 64 - 1 < 20 * (n - 1) \<longrightarrow>
      get_stocks_by_page_number eng n False tr =
        (Inl StorageFailure, tr @ [SelectStocks NoFilter 20 (20 * (n - 1))]))
   \<and> fst (get_stocks_by_page_number eng n False tr) \<noteq> Inl (PageOutOfRange p q)
   \<and> fst (get_stocks_by_page_number eng n False tr) \<noteq> Inl (PageBeyondData p q)"
proof -
  define off where "off = 20 * (n - 1)"
  have body: "get_stocks_by_page_number eng n False tr =
      (case eng (length tr) of
         None \<Rightarrow> Inl StorageFailure
       | Some db \<Rightarrow> select_stocks NoFilter 20 off db,
       tr @ [SelectStocks NoFilter 20 off])" if "1 \<le> n"
    unfolding get_stocks_by_page_number_def Let_def off_def [symmetric]
    using that by (simp add: io_defs split: option.splits sum.splits)
  have a: "n < 1 \<longrightarrow>
      fst (get_stocks_by_page_number eng n False tr) = Inl (InvalidArgument PageBelowOne)"
    by (simp add: get_stocks_by_page_number_def raise_def)
  have c: "get_stocks_by_page_number eng n False tr =
        (Inr (take 20 (drop (nat off) (sort_key stock_id (stocks db)))),
         tr @ [SelectStocks NoFilter 20 off])"
    if "1 \<le> n" "off \<le> 2 ^ 64 - 1" "eng (length tr) = Some db"
  proof -
    have "0 \<le> off"
      using that(1) by (simp add: off_def)
    with that(2) have "select_stocks NoFilter 20 off db =
        Inr (take 20 (drop (nat off) (sort_key stock_id (stocks db))))"
      by (simp add: select_stocks_def)
    with that(3) show ?thesis
      by (simp add: body [OF that(1)])
  qed
  have b: "get_stocks_by_page_number eng n False tr =
        (Inr [], tr @ [SelectStocks NoFilter 20 off])"
    if "1 \<le> n" "off \<le> 2 ^ 64 - 1" "eng (length tr) = Some db"
      "int (length (stocks db)) \<le> off"
    using that(4) c [OF that(1-3)] by simp
  have d: "get_stocks_by_page_number eng n False tr =
        (Inl StorageFailure, tr @ [SelectStocks NoFilter 20 off])"
    if "1 \<le> n" "2 ^ 64 - 1 < off"
    using that(2) by (simp add: body [OF that(1)] select_stocks_def split: option.splits)
  have e: "fst (get_stocks_by_page_number eng n False tr) \<noteq> Inl (PageOutOfRange p q)"
  proof (cases "1 \<le> n")
    case True
    show ?thesis
      unfolding body [OF True] by (simp add: select_stocks_def split: option.splits)
  next
    case False
    then show ?thesis
      by (simp add: get_stocks_by_page_number_def raise_def)
  qed
  have f: "fst (get_stocks_by_page_number eng n False tr) \<noteq> Inl (PageBeyondData p q)"
  proof (cases "1 \<le> n")
    case True
    show ?thesis
      unfolding body [OF True] by (simp add: select_stocks_def split: option.splits)
  next
    case False
    then show ?thesis
      by (simp add: get_stocks_by_page_number_def raise_def)
  qed
  show ?thesis
    unfolding off_def [symmetric]
    using a b c d e f by (intro conjI impI) (elim conjE, assumption | simp)+
qed

theorem unchecked_page_number_witness:
  "fst (get_stocks_by_page_number (steady (listed 45)) 0 False []) = Inl (InvalidArgument PageBelowOne)
   \<and> get_stocks_by_page_number (steady (listed 45)) 4 False [] = (Inr [], [SelectStocks NoFilter 20 60])
   \<and> get_stocks_by_page_number (steady (listed 45)) 1000000000000000000 False [] =
       (Inl StorageFailure, [SelectStocks NoFilter 20 19999999999999999980])"
  using unchecked_page_number [of 0 "steady (listed 45)" "[]" "listed 45"]
    unchecked_page_number [of 4 "steady (listed 45)" "[]" "listed 45"]
    unchecked_page_number [of 1000000000000000000 "steady (listed 45)" "[]" "listed 45"]
  by (simp add: steady_up length_listed)

text \<open>
  The claim as stated, for every page number from 1 on, fails for a page number whose
  offset is too large for a MySQL literal: the table has 45 records, the offset is beyond
  them, and the call fails instead of returning the empty list.
\<close>

theorem huge_page_number_counterexample:
  "int (length (stocks (listed 45))) \<le> 20 * (922337203685477582 - 1)
   \<and> get_stocks_by_page_number (steady (listed 45)) 922337203685477582 False [] =
       (Inl StorageFailure, [SelectStocks NoFilter 20 18446744073709551620])"
proof -
  have "get_stocks_by_page_number (steady (listed 45)) 922337203685477582 False [] =
      (select_stocks NoFilter 20 18446744073709551620 (listed 45),
       [SelectStocks NoFilter 20 18446744073709551620])"
    by (simp add: get_stocks_by_page_number_def io_defs steady_def Let_def
        split: sum.splits)
  moreover have "select_stocks NoFilter 20 18446744073709551620 (listed 45) = Inl StorageFailure"
    by (simp add: select_stocks_def)
  ultimately show ?thesis
    by (simp add: length_listed)
qed

subsection \<open>Pages of the full list\<close>

text \<open>
  Claim C3. On a database that does not change, for every page number n with
  1 \<le> n \<le> total_pages the full-list fetch issues the count and one page query at
  offset 20 * (n - 1) and returns exactly min(20, total - 20 * (n - 1)) records: the
  slice of 20 at that offset of the whole table in ascending id order. With 45 records
  page 1 has 20 rows and page 3 has the 5 rows with the ids 41 to 45.
\<close>

theorem page_number_rows:
  assumes tp: "fst (get_total_pages (steady db) tr) = Inr total_pages"
    and lo: "1 \<le> n" and hi: "n \<le> total_pages"
  shows "\<exists>rows. get_stocks_by_page_number (steady db) n True tr =
           (Inr rows, tr @ [CountStocks NoFilter, SelectStocks NoFilter 20 (20 * (n - 1))])
     \<and> int (length rows) = min 20 (int (length (stocks db)) - 20 * (n - 1))
     \<and> sorted (map stock_id rows)
     \<and> (\<exists>all. mset all = mset (stocks db) \<and> sorted (map stock_id all)
           \<and> rows = take 20 (drop (nat (20 * (n - 1))) all))"
proof -
  define c where "c = int (length (stocks db))"
  define all where "all = sort_key stock_id (stocks db)"
  define rows where "rows = take 20 (drop (nat (20 * (n - 1))) all)"
  have pages: "get_total_pages (steady db) tr =
      (Inr (if c > 0 then (c + 20 - 1) div 20 else 0), tr @ [CountStocks NoFilter])"
    unfolding c_def by (rule get_total_pages_up [of _ _ db, OF steady_up])
  with tp have tp_eq: "total_pages = (if c > 0 then (c + 20 - 1) div 20 else 0)"
    by simp
  with lo hi have pos: "c > 0" and n_le: "n \<le> (c + 20 - 1) div 20"
    by (simp_all split: if_splits)
  have off: "20 * (n - 1) < c"
    using n_le by (rule page_offset_within)
  have len_all: "int (length all) = c"
    by (simp add: all_def c_def)
  have len: "int (length rows) = min 20 (c - 20 * (n - 1))"
    unfolding rows_def using length_page [of 20 "20 * (n - 1)" all] lo off len_all by simp
  then have nonempty: "rows \<noteq> []"
    using off by auto
  have "c < 2 ^ 64"
    unfolding c_def using matching_size [of "\<lambda>r. True" db] by simp
  with off have "20 * (n - 1) \<le> 2 ^ 64 - 1"
    by simp
  then have sel: "select_stocks NoFilter 20 (20 * (n - 1)) db = Inr rows"
    using lo by (simp add: select_stocks_def rows_def all_def)
  then have sel': "select_stocks NoFilter 20 (20 * n - 20) db = Inr rows"
    by (simp add: algebra_simps)
  have run: "get_stocks_by_page_number (steady db) n True tr =
           (Inr rows, tr @ [CountStocks NoFilter, SelectStocks NoFilter 20 (20 * (n - 1))])"
    using lo hi nonempty
    by (simp add: get_stocks_by_page_number_def pages tp_eq [symmetric] and_then_def ret_def
        raise_def execute_def steady_up sel' Let_def)
  have srt: "sorted (map stock_id all)"
    by (simp add: all_def)
  then have "sorted (map stock_id rows)"
    unfolding rows_def by (rule sorted_page)
  moreover have "mset all = mset (stocks db)"
    by (simp add: all_def)
  ultimately show ?thesis
    using run len srt rows_def c_def by blast
qed

theorem page_number_rows_witness:
  "fst (get_total_pages (steady (listed 45)) []) = Inr 3
   \<and> (\<exists>rows. get_stocks_by_page_number (steady (listed 45)) 1 True [] =
          (Inr rows, [CountStocks NoFilter, SelectStocks NoFilter 20 0])
        \<and> length rows = 20 \<and> sorted (map stock_id rows))
   \<and> (\<exists>rows. get_stocks_by_page_number (steady (listed 45)) 3 True [] =
          (Inr rows, [CountStocks NoFilter, SelectStocks NoFilter 20 40])
        \<and> length rows = 5 \<and> sorted (map stock_id rows))"
proof -
  have tp: "fst (get_total_pages (steady (listed 45)) []) = Inr 3"
    by (rule total_pages_45)
  show ?thesis
    using tp page_number_rows [of "listed 45" "[]" 3 1, OF tp]
      page_number_rows [of "listed 45" "[]" 3 3, OF tp]
    by (simp add: length_listed) blast
qed

lemma page_three_of_45:
  "map stock_id (projr (fst (get_stocks_by_page_number (steady (listed 45)) 3 True []))) =
     [41, 42, 43, 44, 45]"
proof -
  have "map stock_id (take 20 (drop 40 (sort_key stock_id (map example_stock (rev [1..45]))))) =
      [41, 42, 43, 44, 45]"
    by code_simp
  then show ?thesis
    by (simp add: get_stocks_by_page_number_def get_total_pages_def get_total_records_def
        io_defs steady_def count_stocks_def select_stocks_def stocks_listed Let_def)
qed

subsection \<open>Pages of a filtered list\<close>

lemma filtered_pages_fixed:
  assumes "v \<noteq> []" and "1 \<le> n"
  shows
    "(fst (get_area_total_records (steady db) v tr) = Inr matched
      \<and> fst (get_area_total_pages (steady db) v tr) = Inr total_pages
      \<and> 0 < matched \<and> n \<le> total_pages \<longrightarrow>
      (\<exists>rows. get_stocks_by_page_and_area (steady db) n v tr =
          (Inr rows,
           tr @ [CountStocks (WhereArea v), CountStocks (WhereArea v),
                 SelectStocks (WhereArea v)
                   (if n < total_pages then 20 else matched - 20 * (n - 1)) (20 * (n - 1))])
        \<and> int (length rows) = (if n < total_pages then 20 else matched - 20 * (n - 1))
        \<and> (\<forall>r \<in> set rows. area r = v)
        \<and> (n = total_pages \<longrightarrow>
              int (length rows) = matched - 20 * (total_pages - 1)
              \<and> 0 < length rows \<and> length rows \<le> 20)))
     \<and> (fst (get_industry_total_records (steady db) v tr) = Inr matched
      \<and> fst (get_industry_total_pages (steady db) v tr) = Inr total_pages
      \<and> 0 < matched \<and> n \<le> total_pages \<longrightarrow>
      (\<exists>rows. get_stocks_by_page_and_industry (steady db) n v tr =
          (Inr rows,
           tr @ [CountStocks (WhereIndustry v), CountStocks (WhereIndustry v),
                 SelectStocks (WhereIndustry v)
                   (if n < total_pages then 20 else matched - 20 * (n - 1)) (20 * (n - 1))])
        \<and> int (length rows) = (if n < total_pages then 20 else matched - 20 * (n - 1))
        \<and> (\<forall>r \<in> set rows. industry r = v)
        \<and> (n = total_pages \<longrightarrow>
              int (length rows) = matched - 20 * (total_pages - 1)
              \<and> 0 < length rows \<and> length rows \<le> 20)))"
proof (intro conjI impI; elim conjE)
  assume cnt: "fst (get_area_total_records (steady db) v tr) = Inr matched"
    and tp: "fst (get_area_total_pages (steady db) v tr) = Inr total_pages"
    and pos: "0 < matched" and le: "n \<le> total_pages"
  define matching where "matching = [r\<leftarrow>stocks db. area r = v]"
  define limit where "limit = (if n < total_pages then 20 else matched - 20 * (n - 1))"
  define rows where
    "rows = take (nat limit) (drop (nat (20 * (n - 1))) (sort_key stock_id matching))"
  have c: "matched = int (length matching)"
    using cnt get_area_total_records_up [of "steady db" tr db v, OF steady_up]
    by (simp add: matching_def)
  have tp_eq: "total_pages = (matched + 20 - 1) div 20"
    using tp pos get_area_total_pages_up [of "steady db" tr db v, OF steady_up]
    by (simp add: c matching_def)
  have run: "get_stocks_by_page_and_area (steady db) n v tr =
      (Inr rows,
       tr @ [CountStocks (WhereArea v), CountStocks (WhereArea v),
             SelectStocks (WhereArea v) limit (20 * (n - 1))])"
    unfolding rows_def
    by (rule area_page_run [where c = matched and db = db and ar = v and n = n and limit = limit
          and tr = tr, folded matching_def, OF c assms(1) assms(2) pos le [unfolded tp_eq]
          limit_def [unfolded tp_eq]])
  have off: "20 * (n - 1) < matched"
    using le unfolding tp_eq by (rule page_offset_within)
  have full: "20 * n \<le> matched" if "n < total_pages"
    using that unfolding tp_eq by (rule inner_page_full)
  have lim: "0 \<le> limit" "20 * (n - 1) + limit \<le> matched"
    using off full by (auto simp: limit_def)
  have len: "int (length rows) = limit"
    unfolding rows_def using lim assms(2) c
    by (intro length_filtered_page) simp_all
  have flt: "\<forall>r \<in> set rows. area r = v"
  proof
    fix r assume "r \<in> set rows"
    then have "r \<in> set (sort_key stock_id matching)"
      unfolding rows_def by (meson in_set_dropD in_set_takeD)
    then show "area r = v"
      by (simp add: matching_def)
  qed
  have last: "int (length rows) = matched - 20 * (total_pages - 1)
      \<and> 0 < length rows \<and> length rows \<le> 20" if "n = total_pages"
  proof -
    have eq: "limit = matched - 20 * (total_pages - 1)"
      using that by (simp add: limit_def)
    have "0 < matched - 20 * (total_pages - 1)" "matched - 20 * (total_pages - 1) \<le> 20"
      unfolding tp_eq by (rule last_page_size)+
    then have "0 < int (length rows)" "int (length rows) \<le> 20"
      using len eq by simp_all
    then have "0 < length rows" "length rows \<le> 20"
      by simp_all
    then show ?thesis
      using len eq by simp
  qed
  show "\<exists>rows. get_stocks_by_page_and_area (steady db) n v tr =
          (Inr rows,
           tr @ [CountStocks (WhereArea v), CountStocks (WhereArea v),
                 SelectStocks (WhereArea v)
                   (if n < total_pages then 20 else matched - 20 * (n - 1)) (20 * (n - 1))])
        \<and> int (length rows) = (if n < total_pages then 20 else matched - 20 * (n - 1))
        \<and> (\<forall>r \<in> set rows. area r = v)
        \<and> (n = total_pages \<longrightarrow>
              int (length rows) = matched - 20 * (total_pages - 1)
              \<and> 0 < length rows \<and> length rows \<le> 20)"
    using run len flt last unfolding limit_def by blast
next
  assume cnt: "fst (get_industry_total_records (steady db) v tr) = Inr matched"
    and tp: "fst (get_industry_total_pages (steady db) v tr) = Inr total_pages"
    and pos: "0 < matched" and le: "n \<le> total_pages"
  define matching where "matching = [r\<leftarrow>stocks db. industry r = v]"
  define limit where "limit = (if n < total_pages then 20 else matched - 20 * (n - 1))"
  define rows where
    "rows = take (nat limit) (drop (nat (20 * (n - 1))) (sort_key stock_id matching))"
  have c: "matched = int (length matching)"
    using cnt get_industry_total_records_up [of "steady db" tr db v, OF steady_up]
    by (simp add: matching_def)
  have tp_eq: "total_pages = (matched + 20 - 1) div 20"
    using tp pos get_industry_total_pages_up [of "steady db" tr db v, OF steady_up]
    by (simp add: c matching_def)
  have run: "get_stocks_by_page_and_industry (steady db) n v tr =
      (Inr rows,
       tr @ [CountStocks (WhereIndustry v), CountStocks (WhereIndustry v),
             SelectStocks (WhereIndustry v) limit (20 * (n - 1))])"
    unfolding rows_def
    by (rule industry_page_run [where c = matched and db = db and ind = v and n = n and limit = limit
          and tr = tr, folded matching_def, OF c assms(1) assms(2) pos le [unfolded tp_eq]
          limit_def [unfolded tp_eq]])
  have off: "20 * (n - 1) < matched"
    using le unfolding tp_eq by (rule page_offset_within)
  have full: "20 * n \<le> matched" if "n < total_pages"
    using that unfolding tp_eq by (rule inner_page_full)
  have lim: "0 \<le> limit" "20 * (n - 1) + limit \<le> matched"
    using off full by (auto simp: limit_def)
  have len: "int (length rows) = limit"
    unfolding rows_def using lim assms(2) c
    by (intro length_filtered_page) simp_all
  have flt: "\<forall>r \<in> set rows. industry r = v"
  proof
    fix r assume "r \<in> set rows"
    then have "r \<in> set (sort_key stock_id matching)"
      unfolding rows_def by (meson in_set_dropD in_set_takeD)
    then show "industry r = v"
      by (simp add: matching_def)
  qed
  have last: "int (length rows) = matched - 20 * (total_pages - 1)
      \<and> 0 < length rows \<and> length rows \<le> 20" if "n = total_pages"
  proof -
    have eq: "limit = matched - 20 * (total_pages - 1)"
      using that by (simp add: limit_def)
    have "0 < matched - 20 * (total_pages - 1)" "matched - 20 * (total_pages - 1) \<le> 20"
      unfolding tp_eq by (rule last_page_size)+
    then have "0 < int (length rows)" "int (length rows) \<le> 20"
      using len eq by simp_all
    then have "0 < length rows" "length rows \<le> 20"
      by simp_all
    then show ?thesis
      using len eq by simp
  qed
  show "\<exists>rows. get_stocks_by_page_and_industry (steady db) n v tr =
          (Inr rows,
           tr @ [CountStocks (WhereIndustry v), CountStocks (WhereIndustry v),
                 SelectStocks (WhereIndustry v)
                   (if n < total_pages then 20 else matched - 20 * (n - 1)) (20 * (n - 1))])
        \<and> int (length rows) = (if n < total_pages then 20 else matched - 20 * (n - 1))
        \<and> (\<forall>r \<in> set rows. industry r = v)
        \<and> (n = total_pages \<longrightarrow>
              int (length rows) = matched - 20 * (total_pages - 1)
              \<and> 0 < length rows \<and> length rows \<le> 20)"
    using run len flt last unfolding limit_def by blast
qed

text \<open>
  Claim C4, as amended. For a non-empty area or industry value, a positive count of
  matching records (the answer of the first count statement) and a page number n with
  1 \<le> n \<le> total_pages (derived from the second count statement), the page query is
  issued with the limit 20 when n < total_pages and with the limit count - 20 * (n - 1)
  when n = total_pages, at the offset 20 * (n - 1), whatever the engine does. On a
  database that does not change during the call the query returns exactly that many rows,
  all of them matching the filter; so the last page has count - 20 * (total_pages - 1)
  rows, which is more than 0 and at most 20.
\<close>

theorem filtered_page_limit:
  assumes "v \<noteq> []" and "1 \<le> n"
  shows
    "(fst (get_area_total_records eng v tr) = Inr matched
      \<and> fst (get_area_total_pages eng v (tr @ [CountStocks (WhereArea v)])) = Inr total_pages
      \<and> 0 < matched \<and> n \<le> total_pages \<longrightarrow>
      snd (get_stocks_by_page_and_area eng n v tr) =
        tr @ [CountStocks (WhereArea v), CountStocks (WhereArea v),
              SelectStocks (WhereArea v)
                (if n < total_pages then 20 else matched - 20 * (n - 1)) (20 * (n - 1))])
     \<and> (fst (get_industry_total_records eng v tr) = Inr matched
      \<and> fst (get_industry_total_pages eng v (tr @ [CountStocks (WhereIndustry v)])) =
            Inr total_pages
      \<and> 0 < matched \<and> n \<le> total_pages \<longrightarrow>
      snd (get_stocks_by_page_and_industry eng n v tr) =
        tr @ [CountStocks (WhereIndustry v), CountStocks (WhereIndustry v),
              SelectStocks (WhereIndustry v)
                (if n < total_pages then 20 else matched - 20 * (n - 1)) (20 * (n - 1))])
     \<and> (fst (get_area_total_records (steady db) v tr) = Inr matched
      \<and> fst (get_area_total_pages (steady db) v tr) = Inr total_pages
      \<and> 0 < matched \<and> n \<le> total_pages \<longrightarrow>
      (\<exists>rows. get_stocks_by_page_and_area (steady db) n v tr =
          (Inr rows,
           tr @ [CountStocks (WhereArea v), CountStocks (WhereArea v),
                 SelectStocks (WhereArea v)
                   (if n < total_pages then 20 else matched - 20 * (n - 1)) (20 * (n - 1))])
        \<and> int (length rows) = (if n < total_pages then 20 else matched - 20 * (n - 1))
        \<and> (\<forall>r \<in> set rows. area r = v)
        \<and> (n = total_pages \<longrightarrow>
              int (length rows) = matched - 20 * (total_pages - 1)
              \<and> 0 < length rows \<and> length rows \<le> 20)))
     \<and> (fst (get_industry_total_records (steady db) v tr) = Inr matched
      \<and> fst (get_industry_total_pages (steady db) v tr) = Inr total_pages
      \<and> 0 < matched \<and> n \<le> total_pages \<longrightarrow>
      (\<exists>rows. get_stocks_by_page_and_industry (steady db) n v tr =
          (Inr rows,
           tr @ [CountStocks (WhereIndustry v), CountStocks (WhereIndustry v),
                 SelectStocks (WhereIndustry v)
                   (if n < total_pages then 20 else matched - 20 * (n - 1)) (20 * (n - 1))])
        \<and> int (length rows) = (if n < total_pages then 20 else matched - 20 * (n - 1))
        \<and> (\<forall>r \<in> set rows. industry r = v)
        \<and> (n = total_pages \<longrightarrow>
              int (length rows) = matched - 20 * (total_pages - 1)
              \<and> 0 < length rows \<and> length rows \<le> 20)))"
proof -
  note fixed = filtered_pages_fixed [OF assms, of db tr matched total_pages]
  show ?thesis
  proof (intro conjI)
    show "fst (get_area_total_records eng v tr) = Inr matched
      \<and> fst (get_area_total_pages eng v (tr @ [CountStocks (WhereArea v)])) = Inr total_pages
      \<and> 0 < matched \<and> n \<le> total_pages \<longrightarrow>
      snd (get_stocks_by_page_and_area eng n v tr) =
        tr @ [CountStocks (WhereArea v), CountStocks (WhereArea v),
              SelectStocks (WhereArea v)
                (if n < total_pages then 20 else matched - 20 * (n - 1)) (20 * (n - 1))]"
      using assms by (intro impI, elim conjE) (rule area_page_trace)
    show "fst (get_industry_total_records eng v tr) = Inr matched
      \<and> fst (get_industry_total_pages eng v (tr @ [CountStocks (WhereIndustry v)])) =
            Inr total_pages
      \<and> 0 < matched \<and> n \<le> total_pages \<longrightarrow>
      snd (get_stocks_by_page_and_industry eng n v tr) =
        tr @ [CountStocks (WhereIndustry v), CountStocks (WhereIndustry v),
              SelectStocks (WhereIndustry v)
                (if n < total_pages then 20 else matched - 20 * (n - 1)) (20 * (n - 1))]"
      using assms by (intro impI, elim conjE) (rule industry_page_trace)
  qed (rule fixed [THEN conjunct1], rule fixed [THEN conjunct2])
qed

lemma changing_counts:
  "fst (get_area_total_records (changing 45 25) ''Shenzhen'' []) = Inr 45"
  "fst (get_area_total_pages (changing 45 25) ''Shenzhen''
     [CountStocks (WhereArea ''Shenzhen'')]) = Inr 2"
  by (simp_all add: get_area_total_records_def get_area_total_pages_def area_count_listed
      io_defs changing_def)

theorem filtered_page_limit_witness:
  "fst (get_area_total_records (steady (listed 45)) ''Shenzhen'' []) = Inr 45
   \<and> fst (get_area_total_pages (steady (listed 45)) ''Shenzhen'' []) = Inr 3
   \<and> (\<exists>rows. get_stocks_by_page_and_area (steady (listed 45)) 2 ''Shenzhen'' [] =
          (Inr rows,
           [CountStocks (WhereArea ''Shenzhen''), CountStocks (WhereArea ''Shenzhen''),
            SelectStocks (WhereArea ''Shenzhen'') 20 20])
        \<and> length rows = 20)
   \<and> (\<exists>rows. get_stocks_by_page_and_area (steady (listed 45)) 3 ''Shenzhen'' [] =
          (Inr rows,
           [CountStocks (WhereArea ''Shenzhen''), CountStocks (WhereArea ''Shenzhen''),
            SelectStocks (WhereArea ''Shenzhen'') 5 40])
        \<and> length rows = 5)
   \<and> (\<exists>rows. get_stocks_by_page_and_industry (steady (listed 45)) 3 ''Bank'' [] =
          (Inr rows,
           [CountStocks (WhereIndustry ''Bank''), CountStocks (WhereIndustry ''Bank''),
            SelectStocks (WhereIndustry ''Bank'') 5 40])
        \<and> length rows = 5)
   \<and> snd (get_stocks_by_page_and_area (changing 45 25) 2 ''Shenzhen'' []) =
       [CountStocks (WhereArea ''Shenzhen''), CountStocks (WhereArea ''Shenzhen''),
        SelectStocks (WhereArea ''Shenzhen'') 25 20]"
proof -
  have v: "''Shenzhen'' \<noteq> []" "''Bank'' \<noteq> []" and n: "(1::int) \<le> 2" "(1::int) \<le> 3"
    by simp_all
  have a: "\<exists>rows. get_stocks_by_page_and_area (steady (listed 45)) 2 ''Shenzhen'' [] =
          (Inr rows,
           [CountStocks (WhereArea ''Shenzhen''), CountStocks (WhereArea ''Shenzhen''),
            SelectStocks (WhereArea ''Shenzhen'') 20 20])
        \<and> length rows = 20"
    using filtered_page_limit [where v = "''Shenzhen''" and n = 2 and eng = "steady (listed 45)"
        and db = "listed 45" and tr = "[]" and matched = 45 and total_pages = 3, OF v(1) n(1),
        THEN conjunct2, THEN conjunct2, THEN conjunct1]
    by (simp add: area_records_45 area_pages_45) blast
  have b: "\<exists>rows. get_stocks_by_page_and_area (steady (listed 45)) 3 ''Shenzhen'' [] =
          (Inr rows,
           [CountStocks (WhereArea ''Shenzhen''), CountStocks (WhereArea ''Shenzhen''),
            SelectStocks (WhereArea ''Shenzhen'') 5 40])
        \<and> length rows = 5"
    using filtered_page_limit [where v = "''Shenzhen''" and n = 3 and eng = "steady (listed 45)"
        and db = "listed 45" and tr = "[]" and matched = 45 and total_pages = 3, OF v(1) n(2),
        THEN conjunct2, THEN conjunct2, THEN conjunct1]
    by (simp add: area_records_45 area_pages_45) blast
  have c: "\<exists>rows. get_stocks_by_page_and_industry (steady (listed 45)) 3 ''Bank'' [] =
          (Inr rows,
           [CountStocks (WhereIndustry ''Bank''), CountStocks (WhereIndustry ''Bank''),
            SelectStocks (WhereIndustry ''Bank'') 5 40])
        \<and> length rows = 5"
    using filtered_page_limit [where v = "''Bank''" and n = 3 and eng = "steady (listed 45)"
        and db = "listed 45" and tr = "[]" and matched = 45 and total_pages = 3, OF v(2) n(2),
        THEN conjunct2, THEN conjunct2, THEN conjunct2]
    by (simp add: industry_records_45 industry_pages_45) blast
  have d: "snd (get_stocks_by_page_and_area (changing 45 25) 2 ''Shenzhen'' []) =
       [CountStocks (WhereArea ''Shenzhen''), CountStocks (WhereArea ''Shenzhen''),
        SelectStocks (WhereArea ''Shenzhen'') 25 20]"
    using filtered_page_limit [where v = "''Shenzhen''" and n = 2 and eng = "changing 45 25"
        and db = "listed 45" and tr = "[]" and matched = 45 and total_pages = 2, OF v(1) n(1),
        THEN conjunct1]
    by (simp add: changing_counts)
  show ?thesis
    using a b c d by (simp only: area_records_45 area_pages_45 simp_thms)
qed

text \<open>
  The claim as stated, for every filtered query, fails when the table changes during the
  call: the method counts the matching records twice (lines 110 and 114, 160 and 164),
  takes the count from the first answer and the page count from the second, and mixes
  them in the limit (lines 119 and 169). When the first count sees 45 matching records
  and the second sees 25, page 2 is the last of 2 pages, the limit is 45 - 20 = 25, and
  the 5 rows with the ids 21 to 25 come back.
\<close>

theorem changing_table_limit_counterexample:
  "fst (get_area_total_records (changing 45 25) ''Shenzhen'' []) = Inr 45
   \<and> fst (get_area_total_pages (changing 45 25) ''Shenzhen''
          [CountStocks (WhereArea ''Shenzhen'')]) = Inr 2
   \<and> get_stocks_by_page_and_area (changing 45 25) 2 ''Shenzhen'' [] =
       (Inr (map example_stock [21, 22, 23, 24, 25]),
        [CountStocks (WhereArea ''Shenzhen''), CountStocks (WhereArea ''Shenzhen''),
         SelectStocks (WhereArea ''Shenzhen'') 25 20])"
proof -
  have "take 25 (drop 20 (sort_key stock_id (map example_stock (rev [1..25])))) =
      map example_stock [21, 22, 23, 24, 25]"
    by code_simp
  then have "take 25 (drop 20 (sort_key stock_id (stocks (listed 25)))) =
      map example_stock [21, 22, 23, 24, 25]"
    by (simp only: stocks_listed [of 25, simplified])
  then have sel: "select_stocks (WhereArea ''Shenzhen'') 25 20 (listed 25) =
      Inr (map example_stock [21, 22, 23, 24, 25])"
    by (simp add: select_stocks_def area_listed)
  show ?thesis
    by (simp add: get_stocks_by_page_and_area_def get_area_total_records_def
        get_area_total_pages_def area_count_listed io_defs changing_def Let_def sel)
qed

text \<open>
  In the other direction the limit falls to 0 or below: with 40 matching records at
  the first count and 45 at the second, page 3 is fetched with the limit 0 and is empty;
  with 45 and then 65, page 4 is fetched with the limit -15, which the database rejects.
\<close>

lemma growing_table_limit_zero:
  "get_stocks_by_page_and_area (changing 40 45) 3 ''Shenzhen'' [] =
     (Inr [],
      [CountStocks (WhereArea ''Shenzhen''), CountStocks (WhereArea ''Shenzhen''),
       SelectStocks (WhereArea ''Shenzhen'') 0 40])"
proof -
  have sel: "select_stocks (WhereArea ''Shenzhen'') 0 40 (listed 45) = Inr []"
    by (simp add: select_stocks_def)
  show ?thesis
    by (simp add: get_stocks_by_page_and_area_def get_area_total_records_def
        get_area_total_pages_def area_count_listed io_defs changing_def Let_def sel)
qed

lemma growing_table_limit_negative:
  "get_stocks_by_page_and_area (changing 45 65) 4 ''Shenzhen'' [] =
     (Inl StorageFailure,
      [CountStocks (WhereArea ''Shenzhen''), CountStocks (WhereArea ''Shenzhen''),
       SelectStocks (WhereArea ''Shenzhen'') (- 15) 60])"
proof -
  have sel: "select_stocks (WhereArea ''Shenzhen'') (- 15) 60 (listed 65) = Inl StorageFailure"
    by (simp add: select_stocks_def)
  show ?thesis
    by (simp add: get_stocks_by_page_and_area_def get_area_total_records_def
        get_area_total_pages_def area_count_listed io_defs changing_def Let_def sel)
qed

subsection \<open>Empty result sets\<close>

text \<open>
  Claim C1, as amended. For a non-empty area or industry value that no row of the
  answering snapshot carries, the total page count is 0 and every page number from 1 on
  returns the empty list after the single count statement, without an error. The
  full list is different: on an empty table its default upper-bound check rejects every
  page number above 1 with \<open>PageOutOfRange n 0\<close>.
\<close>

theorem empty_filter_page:
  "(1 \<le> n \<and> ar \<noteq> [] \<and> eng (length tr) = Some db \<and> (\<forall>r \<in> set (stocks db). area r \<noteq> ar) \<longrightarrow>
      fst (get_area_total_pages eng ar tr) = Inr 0
      \<and> get_stocks_by_page_and_area eng n ar tr = (Inr [], tr @ [CountStocks (WhereArea ar)]))
   \<and> (1 \<le> n \<and> ind \<noteq> [] \<and> eng (length tr) = Some db
        \<and> (\<forall>r \<in> set (stocks db). industry r \<noteq> ind) \<longrightarrow>
      fst (get_industry_total_pages eng ind tr) = Inr 0
      \<and> get_stocks_by_page_and_industry eng n ind tr =
          (Inr [], tr @ [CountStocks (WhereIndustry ind)]))
   \<and> (1 < n \<and> eng (length tr) = Some db \<and> stocks db = [] \<longrightarrow>
      fst (get_total_pages eng tr) = Inr 0
      \<and> get_stocks_by_page_number eng n True tr =
          (Inl (PageOutOfRange n 0), tr @ [CountStocks NoFilter]))"
proof -
  have a: "fst (get_area_total_pages eng ar tr) = Inr 0
      \<and> get_stocks_by_page_and_area eng n ar tr = (Inr [], tr @ [CountStocks (WhereArea ar)])"
    if "1 \<le> n" "ar \<noteq> []" "eng (length tr) = Some db" "\<forall>r \<in> set (stocks db). area r \<noteq> ar"
  proof -
    have "[r\<leftarrow>stocks db. area r = ar] = []"
      using that(4) by (simp add: filter_empty_conv)
    then show ?thesis
      using that(1,2)
      by (simp add: get_stocks_by_page_and_area_def and_then_def ret_def
          get_area_total_records_up [of eng tr db, OF that(3)]
          get_area_total_pages_up [of eng tr db, OF that(3)])
  qed
  have b: "fst (get_industry_total_pages eng ind tr) = Inr 0
      \<and> get_stocks_by_page_and_industry eng n ind tr =
          (Inr [], tr @ [CountStocks (WhereIndustry ind)])"
    if "1 \<le> n" "ind \<noteq> []" "eng (length tr) = Some db"
      "\<forall>r \<in> set (stocks db). industry r \<noteq> ind"
  proof -
    have "[r\<leftarrow>stocks db. industry r = ind] = []"
      using that(4) by (simp add: filter_empty_conv)
    then show ?thesis
      using that(1,2)
      by (simp add: get_stocks_by_page_and_industry_def and_then_def ret_def
          get_industry_total_records_up [of eng tr db, OF that(3)]
          get_industry_total_pages_up [of eng tr db, OF that(3)])
  qed
  have c: "fst (get_total_pages eng tr) = Inr 0
      \<and> get_stocks_by_page_number eng n True tr =
          (Inl (PageOutOfRange n 0), tr @ [CountStocks NoFilter])"
    if "1 < n" "eng (length tr) = Some db" "stocks db = []"
    using that(1,3)
    by (simp add: get_stocks_by_page_number_def and_then_def raise_def
        get_total_pages_up [of eng tr db, OF that(2)])
  from a b c show ?thesis by blast
qed

theorem empty_filter_page_witness:
  "get_stocks_by_page_and_area (steady (listed 45)) 1 ''Beijing'' [] =
     (Inr [], [CountStocks (WhereArea ''Beijing'')])
   \<and> get_stocks_by_page_and_industry (steady (listed 45)) 7 ''Mining'' [] =
     (Inr [], [CountStocks (WhereIndustry ''Mining'')])
   \<and> get_stocks_by_page_number (steady (listed 0)) 2 True [] =
     (Inl (PageOutOfRange 2 0), [CountStocks NoFilter])"
  using empty_filter_page [of 1 "''Beijing''" "steady (listed 45)" "[]" "listed 45" "''Mining''"]
    empty_filter_page [of 7 "''Beijing''" "steady (listed 45)" "[]" "listed 45" "''Mining''"]
    empty_filter_page [of 2 "''Beijing''" "steady (listed 0)" "[]" "listed 0" "''Mining''"]
  by (simp add: steady_up stocks_listed example_stock_def)

text \<open>
  The claim as stated, for every filter choice including none, fails on the full list:
  with an empty table the total page count is 0 and page 2 is an error, not an empty
  list.
\<close>

theorem empty_table_page_counterexample:
  "fst (get_total_pages (steady (listed 0)) []) = Inr 0
   \<and> get_stocks_by_page_number (steady (listed 0)) 2 True [] =
     (Inl (PageOutOfRange 2 0), [CountStocks NoFilter])"
  by (simp add: get_stocks_by_page_number_def and_then_def raise_def
      get_total_pages_up [of _ _ "listed 0", OF steady_up] stocks_listed_0)

text \<open>
  Page 1 of an empty table is rejected by the same check, although the second check of
  the method (line 39) exempts page 1 from being out of range.
\<close>

lemma page_one_of_empty_table:
  "get_stocks_by_page_number (steady (listed 0)) 1 True [] =
     (Inl (PageOutOfRange 1 0), [CountStocks NoFilter])"
  by (simp add: get_stocks_by_page_number_def and_then_def raise_def
      get_total_pages_up [of _ _ "listed 0", OF steady_up] stocks_listed_0)

subsection \<open>A table that shrinks between the count and the fetch\<close>

text \<open>
  Claim C2, as amended. Let the count statement admit page n and let the page query be
  answered from a later snapshot. The fetch returns at most 20 rows. When that snapshot
  still has a record beyond the offset 20 * (n - 1), or n = 1, the fetched rows are
  returned, however few, and no further statement is issued. When the fetch is empty and
  n > 1, the method counts the records again, and raises \<open>PageBeyondData\<close> with the
  requested page and the new record count when that count is at most the offset;
  otherwise it returns the empty list. A failure of the second count is a storage
  failure.
\<close>

theorem shrinking_dataset_fetch:
  assumes passed: "fst (get_total_pages eng tr) = Inr total_pages"
    and lo: "1 \<le> n" and hi: "n \<le> total_pages"
    and fetch: "eng (Suc (length tr)) = Some db1"
  shows
    "let offset = 20 * (n - 1);
         rows = take 20 (drop (nat offset) (sort_key stock_id (stocks db1)));
         tr2 = tr @ [CountStocks NoFilter, SelectStocks NoFilter 20 offset]
     in length rows \<le> 20
        \<and> (offset < int (length (stocks db1)) \<or> n = 1 \<longrightarrow>
             get_stocks_by_page_number eng n True tr = (Inr rows, tr2))
        \<and> (int (length (stocks db1)) \<le> offset \<and> 1 < n \<longrightarrow>
             get_stocks_by_page_number eng n True tr =
               (case eng (Suc (Suc (length tr))) of
                  None \<Rightarrow> (Inl StorageFailure, tr2 @ [CountStocks NoFilter])
                | Some db2 \<Rightarrow>
                    (if int (length (stocks db2)) \<le> offset
                     then Inl (PageBeyondData n (int (length (stocks db2))))
                     else Inr [],
                     tr2 @ [CountStocks NoFilter])))"
proof -
  define off where "off = 20 * (n - 1)"
  define rows where "rows = take 20 (drop (nat off) (sort_key stock_id (stocks db1)))"
  have off0: "0 \<le> off"
    using lo by (simp add: off_def)
  have pages: "get_total_pages eng tr = (Inr total_pages, tr @ [CountStocks NoFilter])"
    using passed by (rule get_total_pages_result)
  obtain db0 where "eng (length tr) = Some db0"
    and "total_pages =
      (if int (length (stocks db0)) > 0 then (int (length (stocks db0)) + 20 - 1) div 20 else 0)"
    using passed by (rule get_total_pages_cases)
  with lo hi have "n \<le> (int (length (stocks db0)) + 20 - 1) div 20"
    by (simp split: if_splits)
  then have "off < int (length (stocks db0))"
    unfolding off_def by (rule page_offset_within)
  moreover have "int (length (stocks db0)) < 2 ^ 64"
    using matching_size [of "\<lambda>r. True" db0] by simp
  ultimately have off1: "off \<le> 2 ^ 64 - 1"
    by simp
  have sel: "select_stocks NoFilter 20 off db1 = Inr rows"
    using off0 off1 by (simp add: select_stocks_def rows_def)
  have empty_iff: "rows = [] \<longleftrightarrow> int (length (stocks db1)) \<le> off"
    using off0 by (auto simp: rows_def)
  have body: "get_stocks_by_page_number eng n True tr =
      (if rows = [] \<and> 1 < n then
         (case eng (Suc (Suc (length tr))) of
            None \<Rightarrow> (Inl StorageFailure,
              tr @ [CountStocks NoFilter, SelectStocks NoFilter 20 off, CountStocks NoFilter])
          | Some db2 \<Rightarrow>
              (if int (length (stocks db2)) \<le> off
               then Inl (PageBeyondData n (int (length (stocks db2))))
               else Inr rows,
               tr @ [CountStocks NoFilter, SelectStocks NoFilter 20 off, CountStocks NoFilter]))
       else (Inr rows, tr @ [CountStocks NoFilter, SelectStocks NoFilter 20 off]))"
    unfolding get_stocks_by_page_number_def Let_def off_def [symmetric]
    using lo hi
    by (simp add: and_then_def ret_def raise_def execute_def pages fetch sel
        get_total_records_def count_stocks_def split: option.splits)
  have a: "length rows \<le> 20"
    by (simp add: rows_def)
  have b: "get_stocks_by_page_number eng n True tr =
      (Inr rows, tr @ [CountStocks NoFilter, SelectStocks NoFilter 20 off])"
    if "off < int (length (stocks db1)) \<or> n = 1"
    using that lo empty_iff by (auto simp: body)
  have c: "get_stocks_by_page_number eng n True tr =
      (case eng (Suc (Suc (length tr))) of
         None \<Rightarrow> (Inl StorageFailure,
           (tr @ [CountStocks NoFilter, SelectStocks NoFilter 20 off]) @ [CountStocks NoFilter])
       | Some db2 \<Rightarrow>
           (if int (length (stocks db2)) \<le> off
            then Inl (PageBeyondData n (int (length (stocks db2))))
            else Inr [],
            (tr @ [CountStocks NoFilter, SelectStocks NoFilter 20 off]) @ [CountStocks NoFilter]))"
    if "int (length (stocks db1)) \<le> off \<and> 1 < n"
    using that empty_iff by (simp add: body split: option.splits)
  show ?thesis
    unfolding Let_def off_def [symmetric] rows_def [symmetric]
    using a b c by blast
qed

theorem shrinking_dataset_fetch_witness:
  "fst (get_total_pages (shrinking 42) []) = Inr 3
   \<and> length (stocks (listed 42)) = 42
   \<and> get_stocks_by_page_number (shrinking 42) 3 True [] =
       (Inr (take 20 (drop 40 (sort_key stock_id (stocks (listed 42))))),
        [CountStocks NoFilter, SelectStocks NoFilter 20 40])
   \<and> get_stocks_by_page_number (shrinking 40) 3 True [] =
       (Inl (PageBeyondData 3 40),
        [CountStocks NoFilter, SelectStocks NoFilter 20 40, CountStocks NoFilter])"
proof -
  have n: "(1::int) \<le> 3" "(3::int) \<le> 3"
    by simp_all
  have f: "shrinking k (Suc (length [])) = Some (listed k)" for k
    by (simp add: shrinking_def)
  show ?thesis
    using shrinking_dataset_fetch [of "shrinking 42" "[]" 3 3 "listed 42", OF shrinking_pages n f]
      shrinking_dataset_fetch [of "shrinking 40" "[]" 3 3 "listed 40", OF shrinking_pages n f]
    by (simp add: shrinking_pages length_listed Let_def) (simp add: shrinking_def length_listed)
qed

text \<open>
  The claim as stated, that a shrunken table only shortens the page and never leads to an
  out-of-range error after validation has passed, fails: the count sees 45 records and
  admits page 3, the fetch sees 40 records and returns nothing, and the second count
  raises the error.
\<close>

theorem shrinking_dataset_counterexample:
  "fst (get_total_pages (shrinking 40) []) = Inr 3
   \<and> get_stocks_by_page_number (shrinking 40) 3 True [] =
       (Inl (PageBeyondData 3 40),
        [CountStocks NoFilter, SelectStocks NoFilter 20 40, CountStocks NoFilter])"
  by (simp add: get_stocks_by_page_number_def get_total_pages_def get_total_records_def
      count_stocks_def select_stocks_def io_defs shrinking_def length_listed)

subsection \<open>Recent trading days\<close>

text \<open>
  Claim C8, as amended. For a non-empty ticker code, when the statement is answered,
  \<^verbatim>\<open>get_recent_7_days_data\<close> returns at most 7 rows of the daily table. Every
  returned row has the given ticker code, a trade date not earlier than 14 days before
  the current date, and a weekday index from 0 to 4; when no bar of the table is dated
  after the current date, every returned date lies in the last 14 days. The rows are in
  descending order of the trade date and are the most recent ones: no matching row that
  was left out is newer than a returned row. When the table holds a bar of the ticker for
  every weekday from 14 days ago to the current date, exactly 7 rows are returned.
\<close>

theorem recent_trading_days:
  assumes "code \<noteq> []" and up: "eng (length tr) = Some db"
  shows "\<exists>rows. get_recent_7_days_data eng code tr = (Inr rows, tr @ [SelectRecentDaily code])
     \<and> length rows \<le> 7
     \<and> (\<forall>r \<in> set rows. r \<in> set (stock_daily_data db) \<and> daily_ts_code r = code
           \<and> curdate db - 14 \<le> trade_date r
           \<and> 0 \<le> weekday (trade_date r) \<and> weekday (trade_date r) \<le> 4)
     \<and> ((\<forall>r \<in> set (stock_daily_data db). trade_date r \<le> curdate db) \<longrightarrow>
           (\<forall>r \<in> set rows. trade_date r \<le> curdate db))
     \<and> sorted (rev (map trade_date rows))
     \<and> (\<forall>r \<in> set (stock_daily_data db). \<forall>x \<in> set rows.
           daily_ts_code r = code \<and> curdate db - 14 \<le> trade_date r
           \<and> weekday (trade_date r) < 5 \<and> r \<notin> set rows \<longrightarrow> trade_date r \<le> trade_date x)
     \<and> ((\<forall>d. curdate db - 14 \<le> d \<and> d \<le> curdate db \<and> weekday d < 5 \<longrightarrow>
             (\<exists>r \<in> set (stock_daily_data db). daily_ts_code r = code \<and> trade_date r = d)) \<longrightarrow>
           length rows = 7)"
proof -
  define fs where "fs = filter (recent_bar code (curdate db)) (stock_daily_data db)"
  define rows where "rows = take 7 (rev (sort_key trade_date fs))"
  have run: "get_recent_7_days_data eng code tr = (Inr rows, tr @ [SelectRecentDaily code])"
    using assms by (simp add: get_recent_7_days_data_def execute_def select_recent_daily_def
        rows_def fs_def)
  have a: "length rows \<le> 7"
    by (simp add: rows_def)
  have sub: "set rows \<subseteq> set fs"
  proof
    fix r assume "r \<in> set rows"
    then have "r \<in> set (rev (sort_key trade_date fs))"
      unfolding rows_def by (rule in_set_takeD)
    then show "r \<in> set fs" by simp
  qed
  have b: "\<forall>r \<in> set rows. r \<in> set (stock_daily_data db) \<and> daily_ts_code r = code
           \<and> curdate db - 14 \<le> trade_date r
           \<and> 0 \<le> weekday (trade_date r) \<and> weekday (trade_date r) \<le> 4"
    using sub by (auto simp: fs_def recent_bar_def weekday_def)
  then have c: "(\<forall>r \<in> set (stock_daily_data db). trade_date r \<le> curdate db) \<longrightarrow>
           (\<forall>r \<in> set rows. trade_date r \<le> curdate db)"
    by blast
  have d: "sorted (rev (map trade_date rows))"
    unfolding rows_def by (rule newest_first(1))
  have e: "\<forall>r \<in> set (stock_daily_data db). \<forall>x \<in> set rows.
           daily_ts_code r = code \<and> curdate db - 14 \<le> trade_date r
           \<and> weekday (trade_date r) < 5 \<and> r \<notin> set rows \<longrightarrow> trade_date r \<le> trade_date x"
  proof (intro ballI impI)
    fix r x
    assume r: "r \<in> set (stock_daily_data db)" and x: "x \<in> set rows"
      and h: "daily_ts_code r = code \<and> curdate db - 14 \<le> trade_date r
           \<and> weekday (trade_date r) < 5 \<and> r \<notin> set rows"
    from r h have "r \<in> set fs"
      by (simp add: fs_def recent_bar_def)
    moreover from h have "r \<notin> set (take 7 (rev (sort_key trade_date fs)))"
      by (simp add: rows_def)
    moreover from x have "x \<in> set (take 7 (rev (sort_key trade_date fs)))"
      by (simp add: rows_def)
    ultimately show "trade_date r \<le> trade_date x"
      by (rule newest_first(2))
  qed
  have f: "(\<forall>d. curdate db - 14 \<le> d \<and> d \<le> curdate db \<and> weekday d < 5 \<longrightarrow>
             (\<exists>r \<in> set (stock_daily_data db). daily_ts_code r = code \<and> trade_date r = d)) \<longrightarrow>
           length rows = 7"
  proof
    assume "\<forall>d. curdate db - 14 \<le> d \<and> d \<le> curdate db \<and> weekday d < 5 \<longrightarrow>
             (\<exists>r \<in> set (stock_daily_data db). daily_ts_code r = code \<and> trade_date r = d)"
    then have "7 \<le> length fs"
      unfolding fs_def by (rule enough_bars)
    then show "length rows = 7"
      by (simp add: rows_def)
  qed
  from run a b c d e f show ?thesis by blast
qed

theorem recent_trading_days_witness:
  "''000001.SZ'' \<noteq> [] \<and> steady daily_db (length []) = Some daily_db
   \<and> (\<exists>rows. get_recent_7_days_data (steady daily_db) ''000001.SZ'' [] =
          (Inr rows, [SelectRecentDaily ''000001.SZ''])
        \<and> length rows = 7 \<and> sorted (rev (map trade_date rows)))"
proof -
  have c: "''000001.SZ'' \<noteq> []"
    by simp
  have up: "steady daily_db (length []) = Some daily_db"
    by (rule steady_up)
  show ?thesis
    using recent_trading_days [of "''000001.SZ''" "steady daily_db" "[]" daily_db, OF c up]
      daily_db_covered up by auto
qed

lemma recent_days_of_daily_db:
  "map trade_date (projr (fst (get_recent_7_days_data (steady daily_db) ''000001.SZ'' []))) =
     [20000, 19999, 19998, 19997, 19996, 19993, 19992]"
proof -
  have "map trade_date (take 7 (rev (sort_key trade_date
          (filter (recent_bar ''000001.SZ'' 20000) (map example_bar [19980..20000]))))) =
      [20000, 19999, 19998, 19997, 19996, 19993, 19992]"
    by code_simp
  then show ?thesis
    by (simp only: get_recent_7_days_data_def execute_def steady_def select_recent_daily_def
        bars_daily_db curdate_daily_db option.case fst_conv sum.sel list.simps if_False)
qed

text \<open>
  The claim as stated bounds the trade date from both sides ("within the last 14
  calendar days"), but the statement only has the lower bound: a weekday bar dated three
  days after the current date is returned.
\<close>

theorem future_bar_counterexample:
  "get_recent_7_days_data (steady future_db) ''000001.SZ'' [] =
     (Inr [example_bar 20003], [SelectRecentDaily ''000001.SZ''])
   \<and> curdate future_db = 20000 \<and> trade_date (example_bar 20003) = 20003"
  by (simp add: get_recent_7_days_data_def execute_def steady_def select_recent_daily_def
      bars_future_db curdate_future_db example_bar_def recent_bar_def weekday_def)

end
